theory Spec2Isabelle
  imports
    Main
    "HOL-Library.FSet"
    "HOL-Library.Finite_Map"
    "HOL-Library.Char_ord"
    "HOL-Library.List_Lexorder"
    "HOL-Library.Multiset"
    "HOL-Library.Word"
begin

unbundle bit_operations_syntax

section \<open>Batching session: data model\<close>

text \<open>
  A shallow embedding of \<^verbatim>\<open>tensorflow_serving/batching/batching_session.cc\<close>.
  The model follows the release build: \<^verbatim>\<open>DCHECK\<close> lines compile to nothing and the
  explicit error returns that follow them are the branches modelled. Log lines are not
  modelled. Sizes and counts are unbounded numbers; the model follows the code for
  batches of fewer than \<open>2^31\<close> rows, where the code's conversions between
  \<^verbatim>\<open>size_t\<close>, \<^verbatim>\<open>int64\<close> and \<^verbatim>\<open>int\<close> change no value.
\<close>

subsection \<open>Status\<close>

datatype Code =
    CANCELLED | UNKNOWN | INVALID_ARGUMENT | DEADLINE_EXCEEDED | NOT_FOUND
  | ALREADY_EXISTS | PERMISSION_DENIED | UNAUTHENTICATED | RESOURCE_EXHAUSTED
  | FAILED_PRECONDITION | ABORTED | OUT_OF_RANGE | UNIMPLEMENTED | INTERNAL
  | UNAVAILABLE | DATA_LOSS

datatype Status = OK | Error Code string

fun ok :: "Status \<Rightarrow> bool" where
  "ok OK = True"
| "ok (Error c m) = False"

subsection \<open>Tensors along the batch axis\<close>

text \<open>
  Modelled from the spec: the tensor type and its primitives come from the tensor
  library, outside this file. The code looks at a tensor only through its rank being
  zero or not, its size along axis 0, and the axis-0 primitives \<^verbatim>\<open>Slice\<close>,
  \<^verbatim>\<open>tensor::Concat\<close> and \<^verbatim>\<open>tensor::Split\<close>. A tensor is therefore a rank-0
  value or a sequence of rows; a row stands for everything below axis 0 (element type
  and trailing dimensions, which \<^verbatim>\<open>Concat\<close> needs to agree).

  Each primitive has a contract (half-open row range within the tensor; a non-empty list
  of tensors of rank at least one; sizes adding up to the axis-0 size). Called outside
  it, the library does not return a tensor but stops the process on a failed
  \<^verbatim>\<open>CHECK\<close>; that outcome is \<open>None\<close>.
\<close>

datatype 'r Tensor = Scalar 'r | Rows "'r list"

text \<open>\<^verbatim>\<open>tensor.Slice(start, limit)\<close>: needs rank at least one and
  \<open>0 \<le> start \<le> limit \<le> dim_size(0)\<close>.\<close>

fun Slice :: "'r Tensor \<Rightarrow> nat \<Rightarrow> nat \<Rightarrow> 'r Tensor option" where
  "Slice (Scalar v) start limit = None"
| "Slice (Rows rows) start limit =
     (if start \<le> limit \<and> limit \<le> length rows
      then Some (Rows (take (limit - start) (drop start rows)))
      else None)"

fun concat_rows :: "'r Tensor list \<Rightarrow> 'r list option" where
  "concat_rows [] = Some []"
| "concat_rows (Scalar v # tensors) = None"
| "concat_rows (Rows rows # tensors) =
     (case concat_rows tensors of None \<Rightarrow> None | Some rest \<Rightarrow> Some (rows @ rest))"

text \<open>\<^verbatim>\<open>tensor::Concat(tensors)\<close>: needs a non-empty list of tensors of rank at
  least one whose element types and trailing shapes agree. The rows of the model all have
  the one row type, which stands for one element type and one trailing shape, so the
  last requirement holds of every list the model can form; tensors that differ below
  axis 0 are outside the model.\<close>

definition Concat :: "'r Tensor list \<Rightarrow> 'r Tensor option" where
  "Concat tensors =
     (if tensors = [] then None
      else case concat_rows tensors of None \<Rightarrow> None | Some rows \<Rightarrow> Some (Rows rows))"

fun split_rows :: "'r list \<Rightarrow> nat list \<Rightarrow> 'r Tensor list" where
  "split_rows rows [] = []"
| "split_rows rows (n # sizes) = Rows (take n rows) # split_rows (drop n rows) sizes"

text \<open>\<^verbatim>\<open>tensor::Split(tensor, sizes)\<close>: needs rank at least one and sizes that
  add up to \<open>dim_size(0)\<close>.\<close>

fun Split :: "'r Tensor \<Rightarrow> nat list \<Rightarrow> 'r Tensor list option" where
  "Split (Scalar v) sizes = None"
| "Split (Rows rows) sizes =
     (if sum_list sizes = length rows then Some (split_rows rows sizes) else None)"

text \<open>The rows of a tensor of rank at least one (a rank-0 tensor has none).\<close>

fun tensor_rows :: "'r Tensor \<Rightarrow> 'r list" where
  "tensor_rows (Scalar v) = []"
| "tensor_rows (Rows rows) = rows"

subsection \<open>Signatures, options, tasks and batches\<close>

text \<open>
  Modelled from the spec: \<^verbatim>\<open>TensorSignature\<close> is declared in
  \<^verbatim>\<open>batching_session.h\<close>. It holds a set of input tensor names and a set of output
  tensor names; equality is equality of the sets. The code inserts into the sets and
  walks them from \<^verbatim>\<open>begin()\<close> to \<^verbatim>\<open>end()\<close>; the sets are ordered
  (\<^verbatim>\<open>std::set<string>\<close>), so a walk visits the names in increasing order, which is
  \<^const>\<open>sorted_list_of_fset\<close>.
\<close>

record TensorSignature =
  input_tensors :: "string fset"
  output_tensors :: "string fset"

text \<open>Modelled from the spec: \<^verbatim>\<open>BatchingSessionOptions\<close> is declared in
  \<^verbatim>\<open>batching_session.h\<close>; the code reads its \<^verbatim>\<open>allowed_batch_sizes\<close>, a vector
  of \<^verbatim>\<open>int\<close>.\<close>

record BatchingSessionOptions =
  allowed_batch_sizes :: "int list"

text \<open>
  Modelled from the spec: \<^verbatim>\<open>BatchingSessionTask\<close> is declared in
  \<^verbatim>\<open>batching_session.h\<close>; its fields are the ones \<^verbatim>\<open>Run\<close> fills in.
  A task points at the caller's \<^verbatim>\<open>inputs\<close>, \<^verbatim>\<open>output_tensor_names\<close>,
  \<^verbatim>\<open>outputs\<close>, \<^verbatim>\<open>status\<close> and \<^verbatim>\<open>done\<close>; every call of \<^verbatim>\<open>Run\<close> owns
  its own, so the task carries them by value. The notification \<^verbatim>\<open>done\<close> is the
  number of times \<^verbatim>\<open>Notify()\<close> was called on it.
\<close>

record 'r BatchingSessionTask =
  zeroth_dim_size :: nat
  inputs :: "(string \<times> 'r Tensor) list"
  output_tensor_names :: "string list"
  outputs :: "'r Tensor list"
  status :: Status
  done_notified :: nat

text \<open>Modelled from the spec: \<^verbatim>\<open>Batch\<close> is declared with the batch scheduler.
  A closed batch is the list of its tasks: \<^verbatim>\<open>num_tasks()\<close> is its length,
  \<^verbatim>\<open>empty()\<close> is having no task, and \<^verbatim>\<open>size()\<close> is the sum of the task sizes,
  a task's size being its \<^verbatim>\<open>zeroth_dim_size\<close>.\<close>

definition Batch_size :: "'r BatchingSessionTask list \<Rightarrow> nat" where
  "Batch_size batch = sum_list (map zeroth_dim_size batch)"

section \<open>Batch-size rounding\<close>

fun first_allowed_size :: "int list \<Rightarrow> int \<Rightarrow> int option" where
  "first_allowed_size [] batch_size = None"
| "first_allowed_size (allowed_size # rest) batch_size =
     (if allowed_size \<ge> batch_size then Some allowed_size
      else first_allowed_size rest batch_size)"

definition RoundToLowestAllowedBatchSize :: "BatchingSessionOptions \<Rightarrow> int \<Rightarrow> int" where
  "RoundToLowestAllowedBatchSize options batch_size =
     (if allowed_batch_sizes options = [] then batch_size
      else case first_allowed_size (allowed_batch_sizes options) batch_size of
             Some allowed_size \<Rightarrow> allowed_size
           | None \<Rightarrow> batch_size)"

section \<open>The facade: \<^verbatim>\<open>Run\<close>\<close>

text \<open>\<^verbatim>\<open>TensorSignatureFromRunArgs\<close> inserts the name of every input and every requested
  output into the signature's two sets.\<close>

definition TensorSignatureFromRunArgs ::
  "(string \<times> 'r Tensor) list \<Rightarrow> string list \<Rightarrow> TensorSignature" where
  "TensorSignatureFromRunArgs ins output_names =
     \<lparr>input_tensors = fold (\<lambda>entry signature_inputs. finsert (fst entry) signature_inputs) ins {||},
      output_tensors = fold finsert output_names {||}\<rparr>"

text \<open>
  The loop of \<^verbatim>\<open>ComputeInputSize\<close>; \<open>sz\<close> is the out-parameter \<^verbatim>\<open>*size\<close>,
  written by the first tensor and compared with by the later ones.
\<close>

fun ComputeInputSize_loop ::
  "(string \<times> 'r Tensor) list \<Rightarrow> bool \<Rightarrow> nat \<Rightarrow> Status \<times> nat" where
  "ComputeInputSize_loop [] first sz = (OK, sz)"
| "ComputeInputSize_loop ((name, Scalar v) # rest) first sz =
     (Error INVALID_ARGUMENT
        ''Batching session Run() input tensors must have at least one dimension'', sz)"
| "ComputeInputSize_loop ((name, Rows rows) # rest) first sz =
     (let this_size = length rows in
      if first then ComputeInputSize_loop rest False this_size
      else if this_size \<noteq> sz then
        (Error INVALID_ARGUMENT
           ''Batching session Run() input tensors must have equal 0th-dimension size'', sz)
      else ComputeInputSize_loop rest False sz)"

definition ComputeInputSize :: "(string \<times> 'r Tensor) list \<Rightarrow> nat \<Rightarrow> Status \<times> nat" where
  "ComputeInputSize ins sz =
     (if length ins = 0 then
        (Error INVALID_ARGUMENT
           ''Batching session Run() must have at least one input tensor'', sz)
      else ComputeInputSize_loop ins True sz)"

text \<open>
  The wrapped session is a function of its state and of the four arguments of
  \<^verbatim>\<open>Session::Run\<close> (the last one being what the caller's \<^verbatim>\<open>outputs\<close> vector holds at
  the call); it gives back a status, the new contents of \<^verbatim>\<open>outputs\<close> and its new
  state. A batch scheduler is seen through the status its \<^verbatim>\<open>Schedule\<close> returns for a
  task.
\<close>

type_synonym ('r, 's) Session =
  "'s \<Rightarrow> (string \<times> 'r Tensor) list \<Rightarrow> string list \<Rightarrow> string list \<Rightarrow> 'r Tensor list
     \<Rightarrow> (Status \<times> 'r Tensor list) \<times> 's"

type_synonym 'r BatchScheduler = "'r BatchingSessionTask \<Rightarrow> Status"

text \<open>
  The dispatch table \<^verbatim>\<open>batch_schedulers_\<close> is a map from signatures to schedulers;
  its \<^verbatim>\<open>find\<close> looks for a key equal to the signature under
  \<^verbatim>\<open>EqTensorSignature\<close>, that is, with the same two sets.
  \<^verbatim>\<open>Run\<close> either returns, with a status and the final contents of the caller's
  \<^verbatim>\<open>outputs\<close>, or has handed a task to the scheduler and is blocked in
  \<^verbatim>\<open>done.WaitForNotification()\<close>; what it returns afterwards is
  \<open>Run_after_notification\<close> of the task as the batch thread left it.
\<close>

datatype 'r RunOutcome =
    Returned Status "'r Tensor list"
  | Waiting "'r BatchingSessionTask"

definition Run ::
  "('r, 's) Session \<Rightarrow> (TensorSignature \<rightharpoonup> 'r BatchScheduler) \<Rightarrow>
   (string \<times> 'r Tensor) list \<Rightarrow> string list \<Rightarrow> string list \<Rightarrow> 'r Tensor list \<Rightarrow> 's \<Rightarrow>
   'r RunOutcome \<times> 's" where
  "Run wrapped batch_schedulers ins output_names target_node_names outs s =
     (if target_node_names \<noteq> [] then
        (Returned (Error PERMISSION_DENIED ''BatchingSession does not support target nodes'')
           outs, s)
      else
        case batch_schedulers (TensorSignatureFromRunArgs ins output_names) of
          None \<Rightarrow>
            (case wrapped s ins output_names target_node_names outs of
               ((st, outs'), s') \<Rightarrow> (Returned st outs', s'))
        | Some batch_scheduler \<Rightarrow>
            (case ComputeInputSize ins 0 of
               (st, sz) \<Rightarrow>
                 if \<not> ok st then (Returned st [], s)
                 else
                   let task = \<lparr>zeroth_dim_size = sz, inputs = ins,
                                output_tensor_names = output_names, outputs = [],
                                status = OK, done_notified = 0\<rparr>
                   in if \<not> ok (batch_scheduler task) then (Returned (batch_scheduler task) [], s)
                      else (Waiting task, s)))"

definition Run_after_notification :: "'r BatchingSessionTask \<Rightarrow> 'r RunOutcome" where
  "Run_after_notification task = Returned (status task) (outputs task)"

subsection \<open>Example collaborators\<close>

text \<open>An engine that appends, for every requested output, twice the rows of its first
  input to \<^verbatim>\<open>outputs\<close> and counts its calls; a scheduler that accepts every task; and a
  dispatch table with the one signature \<open>({x}, {y})\<close>.\<close>

fun double_rows :: "int Tensor \<Rightarrow> int Tensor" where
  "double_rows (Scalar v) = Scalar (2 * v)"
| "double_rows (Rows rows) = Rows (map (\<lambda>v. 2 * v) rows)"

fun double_engine :: "(int, nat) Session" where
  "double_engine s [] output_names target_node_names outs =
     ((Error INVALID_ARGUMENT ''no input'', outs), Suc s)"
| "double_engine s ((name, x) # rest) output_names target_node_names outs =
     ((OK, outs @ map (\<lambda>output_name. double_rows x) output_names), Suc s)"

fun accept_all :: "'r BatchScheduler" where
  "accept_all task = OK"

definition sig_x_y :: TensorSignature where
  "sig_x_y = \<lparr>input_tensors = {|''x''|}, output_tensors = {|''y''|}\<rparr>"

definition schedulers_x_y :: "TensorSignature \<rightharpoonup> int BatchScheduler" where
  "schedulers_x_y = [sig_x_y \<mapsto> accept_all]"

section \<open>Signature hashing and equality\<close>

text \<open>
  \<^verbatim>\<open>HashCombine\<close> (from \<^verbatim>\<open>util/hash.h\<close>) and \<^verbatim>\<open>std::hash<string>\<close> are not part of
  this file; the hash functor takes them as parameters, and nothing is assumed of them.
  It folds the per-name hashes into the seed, one call of \<^verbatim>\<open>HashCombine\<close> per name,
  first over the input names and then over the output names, each in the iteration order
  of its set.
\<close>

definition HashTensorSignature ::
  "(64 word \<Rightarrow> 64 word \<Rightarrow> 64 word) \<Rightarrow> (string \<Rightarrow> 64 word) \<Rightarrow> TensorSignature \<Rightarrow> 64 word" where
  "HashTensorSignature HashCombine hash_string signature =
     fold (\<lambda>output_tensor hash. HashCombine hash (hash_string output_tensor))
       (sorted_list_of_fset (output_tensors signature))
       (fold (\<lambda>input_tensor hash. HashCombine hash (hash_string input_tensor))
          (sorted_list_of_fset (input_tensors signature))
          0xDECAFCAFFE)"


section \<open>The input merger\<close>

text \<open>
  The inner loop of \<^verbatim>\<open>MergeInputTensors\<close> over the entries of one task.
  \<open>last_with_padding\<close> is the test \<^verbatim>\<open>i == batch.num_tasks() - 1 && padding_size > 0\<close>;
  \<^verbatim>\<open>tensors_to_merge[tensor_name]\<close> creates an empty vector for a new name.
\<close>

fun merge_task_inputs ::
  "bool \<Rightarrow> nat \<Rightarrow> (string \<times> 'r Tensor) list \<Rightarrow> (string, 'r Tensor list) fmap \<Rightarrow>
   (string, 'r Tensor list) fmap option" where
  "merge_task_inputs last_with_padding padding_size [] tensors_to_merge = Some tensors_to_merge"
| "merge_task_inputs last_with_padding padding_size ((tensor_name, tensor) # rest) tensors_to_merge =
     (let tensor_vec =
            (case fmlookup tensors_to_merge tensor_name of None \<Rightarrow> [] | Some v \<Rightarrow> v) @ [tensor]
      in if last_with_padding then
           (case Slice tensor 0 1 of
              None \<Rightarrow> None
            | Some padding_tensor \<Rightarrow>
                merge_task_inputs last_with_padding padding_size rest
                  (fmupd tensor_name (tensor_vec @ replicate padding_size padding_tensor)
                     tensors_to_merge))
         else merge_task_inputs last_with_padding padding_size rest
                (fmupd tensor_name tensor_vec tensors_to_merge))"

text \<open>The outer loop over the tasks, from task \<open>i\<close> on.\<close>

fun populate_tensors_to_merge ::
  "int \<Rightarrow> nat \<Rightarrow> nat \<Rightarrow> 'r BatchingSessionTask list \<Rightarrow> (string, 'r Tensor list) fmap \<Rightarrow>
   (string, 'r Tensor list) fmap option" where
  "populate_tensors_to_merge padding_size num_tasks i [] tensors_to_merge = Some tensors_to_merge"
| "populate_tensors_to_merge padding_size num_tasks i (task # rest) tensors_to_merge =
     (case merge_task_inputs (int i = int num_tasks - 1 \<and> padding_size > 0) (nat padding_size)
             (inputs task) tensors_to_merge of
        None \<Rightarrow> None
      | Some tensors_to_merge' \<Rightarrow>
          populate_tensors_to_merge padding_size num_tasks (Suc i) rest tensors_to_merge')"

text \<open>The final loop over the signature's input names, pushing onto \<^verbatim>\<open>merged_inputs\<close>.\<close>

fun concat_signature_inputs ::
  "string list \<Rightarrow> (string, 'r Tensor list) fmap \<Rightarrow> (string \<times> 'r Tensor) list \<Rightarrow>
   (Status \<times> (string \<times> 'r Tensor) list) option" where
  "concat_signature_inputs [] tensors_to_merge merged_inputs = Some (OK, merged_inputs)"
| "concat_signature_inputs (tensor_name # rest) tensors_to_merge merged_inputs =
     (case fmlookup tensors_to_merge tensor_name of
        None \<Rightarrow>
          Some (Error INTERNAL ''One or more tasks does not conform to batch signature'',
                merged_inputs)
      | Some tensors \<Rightarrow>
          (case Concat tensors of
             None \<Rightarrow> None
           | Some merged \<Rightarrow>
               concat_signature_inputs rest tensors_to_merge
                 (merged_inputs @ [(tensor_name, merged)])))"

text \<open>
  \<^verbatim>\<open>padding_size\<close>. The code narrows the \<^verbatim>\<open>size_t\<close> value \<^verbatim>\<open>batch.size()\<close> to
  \<^verbatim>\<open>int\<close> for the call, subtracts in \<^verbatim>\<open>size_t\<close> and narrows the difference to
  \<^verbatim>\<open>int\<close> (lines 304-305 and 371-372). As long as the batch size and the allowed
  sizes are below \<open>2^31\<close> no conversion changes a value and the result is the
  difference below. The scheduler keeps \<^verbatim>\<open>batch.size()\<close> at or below its
  \<^verbatim>\<open>max_batch_size\<close>, an \<^verbatim>\<open>int\<close>; batches of \<open>2^31\<close> rows or more are outside
  the model.
\<close>

definition padding_size_of :: "BatchingSessionOptions \<Rightarrow> 'r BatchingSessionTask list \<Rightarrow> int" where
  "padding_size_of options batch =
     RoundToLowestAllowedBatchSize options (int (Batch_size batch)) - int (Batch_size batch)"

text \<open>
  The result is \<open>None\<close> when a tensor primitive aborts, and otherwise the status with
  the contents of \<^verbatim>\<open>*merged_inputs\<close> at the return.
\<close>

definition MergeInputTensors ::
  "BatchingSessionOptions \<Rightarrow> TensorSignature \<Rightarrow> 'r BatchingSessionTask list \<Rightarrow>
   (string \<times> 'r Tensor) list \<Rightarrow> (Status \<times> (string \<times> 'r Tensor) list) option" where
  "MergeInputTensors options signature batch merged_inputs =
     (if length batch < 1 then
        Some (Error INTERNAL ''Batch size expected to be positive; was 0'', merged_inputs)
      else
        case populate_tensors_to_merge (padding_size_of options batch) (length batch) 0 batch
               fmempty of
          None \<Rightarrow> None
        | Some tensors_to_merge \<Rightarrow>
            if fcard (fmdom tensors_to_merge) \<noteq> fcard (input_tensors signature) then
              Some (Error INTERNAL ''One or more tasks does not conform to batch signature'',
                    merged_inputs)
            else concat_signature_inputs (sorted_list_of_fset (input_tensors signature))
                   tensors_to_merge merged_inputs)"

section \<open>The output splitter\<close>

text \<open>\<^verbatim>\<open>StrCat\<close> of a count: its decimal digits, least significant digit first
  onto the front of \<open>digits\<close>.\<close>

function decimal_onto :: "nat \<Rightarrow> string \<Rightarrow> string" where
  "decimal_onto n digits =
     (if n div 10 = 0 then char_of (n + 48) # digits
      else decimal_onto (n div 10) (char_of (n mod 10 + 48) # digits))"
  by pat_completeness auto
termination
  by (relation "measure fst") auto

declare decimal_onto.simps [simp del]

definition StrCat_count :: "nat \<Rightarrow> string" where
  "StrCat_count n = decimal_onto n []"

definition task_sizes_plus_optional_padding ::
  "BatchingSessionOptions \<Rightarrow> 'r BatchingSessionTask list \<Rightarrow> nat list" where
  "task_sizes_plus_optional_padding options batch =
     map zeroth_dim_size batch @
     (if padding_size_of options batch > 0 then [nat (padding_size_of options batch)] else [])"

text \<open>
  The loop that fills \<^verbatim>\<open>split_tensors\<close>. It runs over the pairs of
  \<^verbatim>\<open>output_tensors[i]\<close> and \<^verbatim>\<open>combined_outputs[i]\<close>; the two vectors have the same
  length when the loop is reached. \<open>expected_size\<close> is
  \<^verbatim>\<open>batch->size() + padding_size\<close>.
\<close>

fun populate_split_tensors ::
  "nat list \<Rightarrow> nat \<Rightarrow> (string \<times> 'r Tensor) list \<Rightarrow> (string, 'r Tensor list) fmap \<Rightarrow>
   (Status + (string, 'r Tensor list) fmap) option" where
  "populate_split_tensors sizes expected_size [] split_tensors = Some (Inr split_tensors)"
| "populate_split_tensors sizes expected_size ((tensor_name, Scalar v) # rest) split_tensors =
     Some (Inl (Error FAILED_PRECONDITION ''Batched output tensor has 0 dimensions''))"
| "populate_split_tensors sizes expected_size ((tensor_name, Rows rows) # rest) split_tensors =
     (if length rows \<noteq> expected_size then
        Some (Inl (Error FAILED_PRECONDITION
          (''Batched output tensor's 0th dimension does not equal the sum of the '' @
           ''0th dimension sizes of the input tensors'')))
      else
        case Split (Rows rows) sizes of
          None \<Rightarrow> None
        | Some split_tensor \<Rightarrow>
            if length split_tensor \<noteq> length sizes then
              Some (Inl (Error INTERNAL
                (''Tensor split operation did not work as expected; got '' @
                 StrCat_count (length split_tensor) @ '' splits; expected '' @
                 StrCat_count (length sizes))))
            else populate_split_tensors sizes expected_size rest
                   (fmupd tensor_name split_tensor split_tensors))"

text \<open>
  The inner loop over one task's requested output names. Reading
  \<^verbatim>\<open>split_tensor->second[i]\<close> past the end of the vector is undefined behaviour and
  is \<open>None\<close>.
\<close>

fun push_task_outputs ::
  "nat \<Rightarrow> string list \<Rightarrow> (string, 'r Tensor list) fmap \<Rightarrow> 'r Tensor list \<Rightarrow>
   (Status \<times> 'r Tensor list) option" where
  "push_task_outputs i [] split_tensors task_outputs = Some (OK, task_outputs)"
| "push_task_outputs i (tensor_name # rest) split_tensors task_outputs =
     (case fmlookup split_tensors tensor_name of
        None \<Rightarrow> Some (Error INTERNAL ''Task does not conform to batch signature'', task_outputs)
      | Some split_tensor \<Rightarrow>
          if i < length split_tensor then
            push_task_outputs i rest split_tensors (task_outputs @ [split_tensor ! i])
          else None)"

text \<open>The loop over the tasks, from task \<open>i\<close> on; it gives back the status and the
  tasks as they are at the return.\<close>

fun split_into_tasks ::
  "nat \<Rightarrow> 'r BatchingSessionTask list \<Rightarrow> (string, 'r Tensor list) fmap \<Rightarrow>
   (Status \<times> 'r BatchingSessionTask list) option" where
  "split_into_tasks i [] split_tensors = Some (OK, [])"
| "split_into_tasks i (task # rest) split_tensors =
     (case push_task_outputs i (output_tensor_names task) split_tensors (outputs task) of
        None \<Rightarrow> None
      | Some (st, task_outputs) \<Rightarrow>
          if \<not> ok st then Some (st, task\<lparr>outputs := task_outputs\<rparr> # rest)
          else
            case split_into_tasks (Suc i) rest split_tensors of
              None \<Rightarrow> None
            | Some (st', rest') \<Rightarrow> Some (st', task\<lparr>outputs := task_outputs\<rparr> # rest'))"

definition SplitOutputTensors ::
  "BatchingSessionOptions \<Rightarrow> TensorSignature \<Rightarrow> 'r Tensor list \<Rightarrow> 'r BatchingSessionTask list \<Rightarrow>
   (Status \<times> 'r BatchingSessionTask list) option" where
  "SplitOutputTensors options signature combined_outputs batch =
     (if length batch < 1 then
        Some (Error INTERNAL ''Batch size expected to be positive; was 0'', batch)
      else if length combined_outputs \<noteq> fcard (output_tensors signature) then
        Some (Error INTERNAL ''Wrong number of batched output tensors'', batch)
      else
        case populate_split_tensors (task_sizes_plus_optional_padding options batch)
               (Batch_size batch + nat (padding_size_of options batch))
               (zip (sorted_list_of_fset (output_tensors signature)) combined_outputs)
               fmempty of
          None \<Rightarrow> None
        | Some (Inl st) \<Rightarrow> Some (st, batch)
        | Some (Inr split_tensors) \<Rightarrow> split_into_tasks 0 batch split_tensors)"

section \<open>The batch driver\<close>

text \<open>The cleanup registered with \<^verbatim>\<open>MakeCleanup\<close>: it stores the status in every task
  and notifies every task's \<^verbatim>\<open>done\<close>.\<close>

definition cleanup :: "Status \<Rightarrow> 'r BatchingSessionTask list \<Rightarrow> 'r BatchingSessionTask list" where
  "cleanup st batch =
     map (\<lambda>task. task\<lparr>status := st, done_notified := Suc (done_notified task)\<rparr>) batch"

text \<open>
  \<^verbatim>\<open>ProcessBatch\<close> on a closed batch. The result is \<open>None\<close> when a tensor primitive
  aborts the process, and otherwise the tasks and the wrapped session's state when
  \<^verbatim>\<open>ProcessBatch\<close> returns.
\<close>

definition ProcessBatch ::
  "BatchingSessionOptions \<Rightarrow> ('r, 's) Session \<Rightarrow> TensorSignature \<Rightarrow>
   'r BatchingSessionTask list \<Rightarrow> 's \<Rightarrow> ('r BatchingSessionTask list \<times> 's) option" where
  "ProcessBatch options wrapped signature batch s =
     (if batch = [] then Some (batch, s)
      else
        case MergeInputTensors options signature batch [] of
          None \<Rightarrow> None
        | Some (merge_status, merged_inputs) \<Rightarrow>
            if \<not> ok merge_status then Some (cleanup merge_status batch, s)
            else
              case wrapped s merged_inputs (sorted_list_of_fset (output_tensors signature)) [] [] of
                ((run_status, combined_outputs), s') \<Rightarrow>
                  if \<not> ok run_status then Some (cleanup run_status batch, s')
                  else
                    case SplitOutputTensors options signature combined_outputs batch of
                      None \<Rightarrow> None
                    | Some (split_status, batch') \<Rightarrow> Some (cleanup split_status batch', s'))"

fun failing_engine :: "(int, nat) Session" where
  "failing_engine s ins output_names target_node_names outs =
     ((Error UNAVAILABLE ''engine down'', outs), Suc s)"

subsection \<open>Example batches\<close>

definition options_4 :: BatchingSessionOptions where
  "options_4 = \<lparr>allowed_batch_sizes = [4]\<rparr>"

definition task_a :: "int BatchingSessionTask" where
  "task_a = \<lparr>zeroth_dim_size = 2, inputs = [(''x'', Rows [1, 2])],
             output_tensor_names = [''y''], outputs = [], status = OK, done_notified = 0\<rparr>"

definition task_b :: "int BatchingSessionTask" where
  "task_b = \<lparr>zeroth_dim_size = 1, inputs = [(''x'', Rows [3])],
             output_tensor_names = [''y''], outputs = [], status = OK, done_notified = 0\<rparr>"

definition task_empty :: "int BatchingSessionTask" where
  "task_empty = \<lparr>zeroth_dim_size = 0, inputs = [(''x'', Rows [])],
             output_tensor_names = [''y''], outputs = [], status = OK, done_notified = 0\<rparr>"

definition options_none :: BatchingSessionOptions where
  "options_none = \<lparr>allowed_batch_sizes = []\<rparr>"

definition sig_xw_y :: TensorSignature where
  "sig_xw_y = \<lparr>input_tensors = {|''x'', ''w''|}, output_tensors = {|''y''|}\<rparr>"

definition task_x_only :: "int BatchingSessionTask" where
  "task_x_only = \<lparr>zeroth_dim_size = 1, inputs = [(''x'', Rows [1])],
             output_tensor_names = [''y''], outputs = [], status = OK, done_notified = 0\<rparr>"

definition task_w_only :: "int BatchingSessionTask" where
  "task_w_only = \<lparr>zeroth_dim_size = 1, inputs = [(''w'', Rows [5])],
             output_tensor_names = [''y''], outputs = [], status = OK, done_notified = 0\<rparr>"



text \<open>A signature with two output names, an engine whose answer depends on the output
  name (twice the rows of its first input for \<open>y\<close>, three times for any other name), and
  two tasks that ask for the two outputs in different orders.\<close>

definition sig_x_yz :: TensorSignature where
  "sig_x_yz = \<lparr>input_tensors = {|''x''|}, output_tensors = {|''z'', ''y''|}\<rparr>"

fun scale_rows :: "int \<Rightarrow> int Tensor \<Rightarrow> int Tensor" where
  "scale_rows c (Scalar v) = Scalar (c * v)"
| "scale_rows c (Rows rows) = Rows (map (\<lambda>v. c * v) rows)"

fun named_engine :: "(int, nat) Session" where
  "named_engine s [] output_names target_node_names outs =
     ((Error INVALID_ARGUMENT ''no input'', outs), Suc s)"
| "named_engine s ((name, x) # rest) output_names target_node_names outs =
     ((OK, outs @ map (\<lambda>output_name. scale_rows (if output_name = ''y'' then 2 else 3) x)
                    output_names), Suc s)"

definition task_c :: "int BatchingSessionTask" where
  "task_c = \<lparr>zeroth_dim_size = 2, inputs = [(''x'', Rows [1, 2])],
             output_tensor_names = [''z'', ''y''], outputs = [], status = OK, done_notified = 0\<rparr>"

definition task_d :: "int BatchingSessionTask" where
  "task_d = \<lparr>zeroth_dim_size = 1, inputs = [(''x'', Rows [3])],
             output_tensor_names = [''y'', ''z''], outputs = [], status = OK, done_notified = 0\<rparr>"

section \<open>Results about batch-size rounding\<close>

lemma first_allowed_size_None:
  "first_allowed_size allowed n = None \<longleftrightarrow> (\<forall>a \<in> set allowed. a < n)"
  by (induction allowed) auto

lemma first_allowed_size_Some:
  "sorted_wrt (<) allowed \<Longrightarrow> first_allowed_size allowed n = Some a \<Longrightarrow>
   a \<in> set allowed \<and> n \<le> a \<and> (\<forall>b \<in> set allowed. n \<le> b \<longrightarrow> a \<le> b)"
proof (induction allowed)
  case Nil
  then show ?case by simp
next
  case (Cons x xs)
  show ?case
  proof (cases "n \<le> x")
    case True
    with Cons.prems show ?thesis by auto
  next
    case False
    with Cons show ?thesis by auto
  qed
qed

lemma strictly_sorted_le_last:
  "sorted_wrt (<) (xs :: int list) \<Longrightarrow> a \<in> set xs \<Longrightarrow> a \<le> last xs"
  by (induction xs) (auto simp: less_imp_le)

text \<open>
  Claim C5. With no allowed sizes the batch size is returned as it is. With a strictly
  increasing list of allowed sizes, the result is the least allowed size that is at least
  the batch size when there is one, and the batch size itself when it exceeds the last
  (hence every) allowed size.
\<close>

theorem RoundToLowestAllowedBatchSize_spec:
  "(allowed_batch_sizes options = [] \<longrightarrow> RoundToLowestAllowedBatchSize options n = n) \<and>
   (allowed_batch_sizes options \<noteq> [] \<and> sorted_wrt (<) (allowed_batch_sizes options) \<and>
      n \<le> last (allowed_batch_sizes options) \<longrightarrow>
        RoundToLowestAllowedBatchSize options n \<in> set (allowed_batch_sizes options) \<and>
        n \<le> RoundToLowestAllowedBatchSize options n \<and>
        (\<forall>b \<in> set (allowed_batch_sizes options).
            n \<le> b \<longrightarrow> RoundToLowestAllowedBatchSize options n \<le> b)) \<and>
   (allowed_batch_sizes options \<noteq> [] \<and> sorted_wrt (<) (allowed_batch_sizes options) \<and>
      last (allowed_batch_sizes options) < n \<longrightarrow>
        RoundToLowestAllowedBatchSize options n = n)"
proof (intro conjI impI)
  assume "allowed_batch_sizes options = []"
  then show "RoundToLowestAllowedBatchSize options n = n"
    by (simp add: RoundToLowestAllowedBatchSize_def)
next
  assume h: "allowed_batch_sizes options \<noteq> [] \<and> sorted_wrt (<) (allowed_batch_sizes options) \<and>
      n \<le> last (allowed_batch_sizes options)"
  then have "last (allowed_batch_sizes options) \<in> set (allowed_batch_sizes options)"
    by simp
  with h have "\<exists>a \<in> set (allowed_batch_sizes options). \<not> a < n"
    by (intro bexI[of _ "last (allowed_batch_sizes options)"]) auto
  then have "first_allowed_size (allowed_batch_sizes options) n \<noteq> None"
    by (simp add: first_allowed_size_None)
  then obtain a where a: "first_allowed_size (allowed_batch_sizes options) n = Some a"
    by auto
  with h have r: "RoundToLowestAllowedBatchSize options n = a"
    by (simp add: RoundToLowestAllowedBatchSize_def)
  from h a have "a \<in> set (allowed_batch_sizes options) \<and> n \<le> a \<and>
      (\<forall>b \<in> set (allowed_batch_sizes options). n \<le> b \<longrightarrow> a \<le> b)"
    by (intro first_allowed_size_Some) auto
  with r show "RoundToLowestAllowedBatchSize options n \<in> set (allowed_batch_sizes options)"
    and "n \<le> RoundToLowestAllowedBatchSize options n"
    and "\<forall>b \<in> set (allowed_batch_sizes options).
            n \<le> b \<longrightarrow> RoundToLowestAllowedBatchSize options n \<le> b"
    by auto
next
  assume h: "allowed_batch_sizes options \<noteq> [] \<and> sorted_wrt (<) (allowed_batch_sizes options) \<and>
      last (allowed_batch_sizes options) < n"
  have "\<forall>a \<in> set (allowed_batch_sizes options). a \<le> last (allowed_batch_sizes options)"
    using h by (auto intro: strictly_sorted_le_last)
  with h have "first_allowed_size (allowed_batch_sizes options) n = None"
    by (force simp: first_allowed_size_None)
  then show "RoundToLowestAllowedBatchSize options n = n"
    by (simp add: RoundToLowestAllowedBatchSize_def)
qed

theorem RoundToLowestAllowedBatchSize_spec_witness:
  "RoundToLowestAllowedBatchSize \<lparr>allowed_batch_sizes = []\<rparr> 3 = 3 \<and>
   RoundToLowestAllowedBatchSize \<lparr>allowed_batch_sizes = [2, 4, 8]\<rparr> 3 = 4 \<and>
   RoundToLowestAllowedBatchSize \<lparr>allowed_batch_sizes = [2, 4, 8]\<rparr> 9 = 9"
  using RoundToLowestAllowedBatchSize_spec [of "\<lparr>allowed_batch_sizes = []\<rparr>" 3]
    RoundToLowestAllowedBatchSize_spec [of "\<lparr>allowed_batch_sizes = [2, 4, 8]\<rparr>" 3]
    RoundToLowestAllowedBatchSize_spec [of "\<lparr>allowed_batch_sizes = [2, 4, 8]\<rparr>" 9]
  by (simp add: RoundToLowestAllowedBatchSize_def)

section \<open>Results about the facade\<close>

lemma ComputeInputSize_loop_code:
  "\<not> ok (fst (ComputeInputSize_loop ins first sz)) \<Longrightarrow>
   \<exists>msg. fst (ComputeInputSize_loop ins first sz) = Error INVALID_ARGUMENT msg"
  by (induction ins first sz rule: ComputeInputSize_loop.induct) (auto simp: Let_def split: if_splits)

lemma ComputeInputSize_loop_later_ok:
  "ok (fst (ComputeInputSize_loop ins False sz)) \<longleftrightarrow>
   (\<forall>e \<in> set ins. \<exists>rows. snd e = Rows rows \<and> length rows = sz)"
  by (induction ins "False" sz rule: ComputeInputSize_loop.induct) (auto simp: Let_def)

lemma ComputeInputSize_loop_later_size:
  "snd (ComputeInputSize_loop ins False sz) = sz"
  by (induction ins "False" sz rule: ComputeInputSize_loop.induct) (auto simp: Let_def)

lemma ComputeInputSize_ok_iff:
  "ok (fst (ComputeInputSize ins sz)) \<longleftrightarrow>
   (\<exists>name rows rest. ins = (name, Rows rows) # rest \<and>
      (\<forall>e \<in> set rest. \<exists>rows'. snd e = Rows rows' \<and> length rows' = length rows))"
proof (cases ins)
  case Nil
  then show ?thesis by (simp add: ComputeInputSize_def)
next
  case (Cons e rest)
  obtain name tensor where e: "e = (name, tensor)" by (cases e)
  show ?thesis
  proof (cases tensor)
    case (Scalar v)
    with Cons e show ?thesis by (simp add: ComputeInputSize_def)
  next
    case (Rows rows)
    with Cons e show ?thesis
      by (simp add: ComputeInputSize_def ComputeInputSize_loop_later_ok)
  qed
qed

lemma ComputeInputSize_ok_size:
  "ok (fst (ComputeInputSize ((name, Rows rows) # rest) sz)) \<Longrightarrow>
   snd (ComputeInputSize ((name, Rows rows) # rest) sz) = length rows"
  by (simp add: ComputeInputSize_def ComputeInputSize_loop_later_size)

lemma ComputeInputSize_code:
  "\<not> ok (fst (ComputeInputSize ins sz)) \<Longrightarrow>
   \<exists>msg. fst (ComputeInputSize ins sz) = Error INVALID_ARGUMENT msg"
  using ComputeInputSize_loop_code [of ins True sz]
  by (auto simp: ComputeInputSize_def)

lemma ComputeInputSize_spec:
  "(\<not> ok (fst (ComputeInputSize ins sz)) \<longleftrightarrow>
      ins = [] \<or>
      (\<exists>e \<in> set ins. \<exists>v. snd e = Scalar v) \<or>
      (\<exists>e1 \<in> set ins. \<exists>e2 \<in> set ins. \<exists>rows1 rows2.
          snd e1 = Rows rows1 \<and> snd e2 = Rows rows2 \<and> length rows1 \<noteq> length rows2)) \<and>
   (\<not> ok (fst (ComputeInputSize ins sz)) \<longrightarrow>
      (\<exists>msg. fst (ComputeInputSize ins sz) = Error INVALID_ARGUMENT msg)) \<and>
   (ok (fst (ComputeInputSize ins sz)) \<longrightarrow>
      (\<exists>rows. snd (hd ins) = Rows rows \<and> ComputeInputSize ins sz = (OK, length rows)))"
proof (intro conjI)
  show "(\<not> ok (fst (ComputeInputSize ins sz))) =
    (ins = [] \<or>
     (\<exists>e\<in>set ins. \<exists>v. snd e = Scalar v) \<or>
     (\<exists>e1\<in>set ins. \<exists>e2\<in>set ins. \<exists>rows1 rows2.
         snd e1 = Rows rows1 \<and> snd e2 = Rows rows2 \<and> length rows1 \<noteq> length rows2))"
    (is "?L = ?R")
  proof
    assume ?L
    show ?R
    proof (rule ccontr)
      assume n: "\<not> ?R"
      then have n1: "ins \<noteq> []"
        and n2: "\<And>e v. e \<in> set ins \<Longrightarrow> snd e \<noteq> Scalar v"
        and n3: "\<And>e1 e2 rows1 rows2. e1 \<in> set ins \<Longrightarrow> e2 \<in> set ins \<Longrightarrow>
                  snd e1 = Rows rows1 \<Longrightarrow> snd e2 = Rows rows2 \<Longrightarrow> length rows1 = length rows2"
        by blast+
      from n1 obtain e rest where ins: "ins = e # rest" by (cases ins) auto
      obtain name tensor where e: "e = (name, tensor)" by (cases e)
      from n2 [of e] ins e obtain rows where t: "tensor = Rows rows" by (cases tensor) auto
      have "\<forall>e' \<in> set rest. \<exists>rows'. snd e' = Rows rows' \<and> length rows' = length rows"
      proof
        fix e' assume m: "e' \<in> set rest"
        with n2 [of e'] ins obtain rows' where r: "snd e' = Rows rows'" by (cases "snd e'") auto
        from n3 [of e' e rows' rows] r ins e t m have "length rows' = length rows" by simp
        with r show "\<exists>rows'. snd e' = Rows rows' \<and> length rows' = length rows" by simp
      qed
      with ins e t have "ok (fst (ComputeInputSize ins sz))"
        by (simp add: ComputeInputSize_ok_iff)
      with \<open>?L\<close> show False by simp
    qed
  next
    assume ?R
    show ?L
    proof
      assume "ok (fst (ComputeInputSize ins sz))"
      then obtain name rows rest where ins: "ins = (name, Rows rows) # rest"
        and all: "\<forall>e \<in> set rest. \<exists>rows'. snd e = Rows rows' \<and> length rows' = length rows"
        by (auto simp: ComputeInputSize_ok_iff)
      then have a: "\<And>e. e \<in> set ins \<Longrightarrow> \<exists>rows'. snd e = Rows rows' \<and> length rows' = length rows"
        by auto
      from \<open>?R\<close> ins consider
          (scalar) e v where "e \<in> set ins" "snd e = Scalar v"
        | (unequal) e1 e2 rows1 rows2 where "e1 \<in> set ins" "e2 \<in> set ins"
            "snd e1 = Rows rows1" "snd e2 = Rows rows2" "length rows1 \<noteq> length rows2"
        by blast
      then show False
      proof cases
        case scalar
        with a [of e] show False by auto
      next
        case unequal
        with a [of e1] a [of e2] show False by auto
      qed
    qed
  qed
next
  show "\<not> ok (fst (ComputeInputSize ins sz)) \<longrightarrow>
      (\<exists>msg. fst (ComputeInputSize ins sz) = Error INVALID_ARGUMENT msg)"
    by (simp add: ComputeInputSize_code)
next
  show "ok (fst (ComputeInputSize ins sz)) \<longrightarrow>
      (\<exists>rows. snd (hd ins) = Rows rows \<and> ComputeInputSize ins sz = (OK, length rows))"
  proof
    assume o: "ok (fst (ComputeInputSize ins sz))"
    then obtain name rows rest where ins: "ins = (name, Rows rows) # rest"
      by (auto simp: ComputeInputSize_ok_iff)
    with o have "snd (ComputeInputSize ins sz) = length rows"
      by (simp add: ComputeInputSize_ok_size)
    moreover from o have "fst (ComputeInputSize ins sz) = OK"
      by (cases "fst (ComputeInputSize ins sz)") auto
    ultimately have "ComputeInputSize ins sz = (OK, length rows)"
      by (simp add: prod_eq_iff)
    with ins show "\<exists>rows. snd (hd ins) = Rows rows \<and> ComputeInputSize ins sz = (OK, length rows)"
      by simp
  qed
qed


lemma Run_Waiting_checked:
  "fst (Run wrapped batch_schedulers ins output_names target_node_names outs s) = Waiting task \<Longrightarrow>
   ok (fst (ComputeInputSize ins 0)) \<and> zeroth_dim_size task = snd (ComputeInputSize ins 0) \<and>
   outputs task = [] \<and> inputs task = ins \<and> output_tensor_names task = output_names"
  by (auto simp: Run_def Let_def split: if_splits option.splits prod.splits)

lemma sig_z_y_miss:
  "schedulers_x_y (TensorSignatureFromRunArgs [(''z'', t)] [''y'']) = None"
  by (simp add: schedulers_x_y_def sig_x_y_def TensorSignatureFromRunArgs_def)

lemma sig_x_y_hit:
  "schedulers_x_y (TensorSignatureFromRunArgs [(''x'', t)] [''y'']) = Some accept_all"
  by (simp add: schedulers_x_y_def sig_x_y_def TensorSignatureFromRunArgs_def)

text \<open>
  Claim C6. \<^verbatim>\<open>ComputeInputSize\<close> fails exactly when there is no input, or some input
  has rank 0, or two inputs differ in their axis-0 size; every failure is an
  invalid-argument error; on success the size is the axis-0 size of the first tensor.
  In \<^verbatim>\<open>Run\<close> a task reaches the scheduler only after the check has passed, and on
  the batching path a failed check makes \<^verbatim>\<open>Run\<close> return that error, whatever the
  scheduler would have answered.
\<close>

theorem ComputeInputSize_validates:
  "(\<not> ok (fst (ComputeInputSize ins sz)) \<longleftrightarrow>
      ins = [] \<or>
      (\<exists>e \<in> set ins. \<exists>v. snd e = Scalar v) \<or>
      (\<exists>e1 \<in> set ins. \<exists>e2 \<in> set ins. \<exists>rows1 rows2.
          snd e1 = Rows rows1 \<and> snd e2 = Rows rows2 \<and> length rows1 \<noteq> length rows2)) \<and>
   (\<not> ok (fst (ComputeInputSize ins sz)) \<longrightarrow>
      (\<exists>msg. fst (ComputeInputSize ins sz) = Error INVALID_ARGUMENT msg)) \<and>
   (ok (fst (ComputeInputSize ins sz)) \<longrightarrow>
      (\<exists>rows. snd (hd ins) = Rows rows \<and> ComputeInputSize ins sz = (OK, length rows))) \<and>
   (\<forall>task. fst (Run wrapped batch_schedulers ins output_names target_node_names outs s)
              = Waiting task \<longrightarrow>
      ok (fst (ComputeInputSize ins 0)) \<and>
      zeroth_dim_size task = snd (ComputeInputSize ins 0)) \<and>
   (target_node_names = [] \<and>
    batch_schedulers (TensorSignatureFromRunArgs ins output_names) = Some batch_scheduler \<and>
    \<not> ok (fst (ComputeInputSize ins 0)) \<longrightarrow>
      Run wrapped batch_schedulers ins output_names target_node_names outs s
        = (Returned (fst (ComputeInputSize ins 0)) [], s))"
proof -
  have run_checked: "\<forall>task.
      fst (Run wrapped batch_schedulers ins output_names target_node_names outs s) = Waiting task \<longrightarrow>
      ok (fst (ComputeInputSize ins 0)) \<and> zeroth_dim_size task = snd (ComputeInputSize ins 0)"
    using Run_Waiting_checked [of wrapped batch_schedulers ins output_names target_node_names outs s]
    by blast
  have run_rejects: "target_node_names = [] \<and>
      batch_schedulers (TensorSignatureFromRunArgs ins output_names) = Some batch_scheduler \<and>
      \<not> ok (fst (ComputeInputSize ins 0)) \<longrightarrow>
      Run wrapped batch_schedulers ins output_names target_node_names outs s
        = (Returned (fst (ComputeInputSize ins 0)) [], s)"
    by (simp add: Run_def split: prod.splits)
  note c = ComputeInputSize_spec [of ins sz]
  from conjunct1 [OF c] conjunct1 [OF conjunct2 [OF c]] conjunct2 [OF conjunct2 [OF c]]
    run_checked run_rejects
  show ?thesis by - (intro conjI; assumption)
qed

theorem ComputeInputSize_validates_witness:
  "ComputeInputSize ([] :: (string \<times> int Tensor) list) 0
     = (Error INVALID_ARGUMENT ''Batching session Run() must have at least one input tensor'', 0) \<and>
   \<not> ok (fst (ComputeInputSize [(''x'', Scalar (1::int))] 0)) \<and>
   \<not> ok (fst (ComputeInputSize [(''x'', Rows [1, 2]), (''w'', Rows [1, 2, 3::int])] 0)) \<and>
   ComputeInputSize [(''x'', Rows [1, 2]), (''w'', Rows [3, 4::int])] 0 = (OK, 2) \<and>
   Run double_engine schedulers_x_y [(''x'', Scalar 1)] [''y''] [] [Rows [7]] 0
     = (Returned (Error INVALID_ARGUMENT
          ''Batching session Run() input tensors must have at least one dimension'') [], 0)"
  using ComputeInputSize_validates [of "[] :: (string \<times> int Tensor) list" 0]
    ComputeInputSize_validates [of "[(''x'', Rows [1, 2]), (''w'', Rows [1, 2, 3::int])]" 0]
    ComputeInputSize_validates [of "[(''x'', Rows [1, 2]), (''w'', Rows [3, 4::int])]" 0]
    ComputeInputSize_validates [of "[(''x'', Scalar (1::int))]" 0 double_engine
      schedulers_x_y "[''y'']" "[]" "[Rows [7]]" 0 accept_all]
  by (simp add: ComputeInputSize_def sig_x_y_hit)

text \<open>
  Claim C4, as amended. A call without target nodes whose signature is not a key of the
  dispatch table is forwarded to the wrapped session with the same inputs, output names,
  (empty) target nodes and \<^verbatim>\<open>outputs\<close> vector, and \<^verbatim>\<open>Run\<close> returns the wrapped
  session's status and outputs and leaves it in the state the direct call would have.
\<close>

theorem Run_bypass:
  "target_node_names = [] \<Longrightarrow>
   batch_schedulers (TensorSignatureFromRunArgs ins output_names) = None \<Longrightarrow>
   wrapped s ins output_names target_node_names outs = ((st, outs'), s') \<Longrightarrow>
   Run wrapped batch_schedulers ins output_names target_node_names outs s = (Returned st outs', s')"
  by (simp add: Run_def)

theorem Run_bypass_witness:
  "Run double_engine schedulers_x_y [(''z'', Rows [1])] [''y''] [] [] 0
     = (Returned OK [Rows [2]], 1)"
  using Run_bypass [of "[]" schedulers_x_y "[(''z'', Rows [1])]" "[''y'']" double_engine 0
      "[]" OK "[Rows [2]]" 1]
  by (simp add: sig_z_y_miss)

text \<open>
  The claim as stated fails for a call that names a target node: the signature
  \<open>({z}, {y})\<close> is not a key of the table and the wrapped session, called directly,
  answers \<open>OK\<close> with one tensor, but \<^verbatim>\<open>Run\<close> returns a permission-denied error and
  never calls the wrapped session.
\<close>

theorem Run_bypass_counterexample:
  "schedulers_x_y (TensorSignatureFromRunArgs [(''z'', Rows [1::int])] [''y'']) = None \<and>
   double_engine 0 [(''z'', Rows [1])] [''y''] [''init''] [] = ((OK, [Rows [2]]), 1) \<and>
   Run double_engine schedulers_x_y [(''z'', Rows [1])] [''y''] [''init''] [] 0 =
     (Returned (Error PERMISSION_DENIED ''BatchingSession does not support target nodes'') [], 0)"
  by (simp add: sig_z_y_miss Run_def)

text \<open>
  Claim C10. Whenever \<^verbatim>\<open>Run\<close> hands a task to the scheduler, the task's
  \<^verbatim>\<open>outputs\<close> is empty and what the caller's vector held before plays no part.
  When the lookup of the signature is reached (no target nodes) and finds a scheduler,
  \<^verbatim>\<open>Run\<close> behaves as if the caller's \<^verbatim>\<open>outputs\<close> vector had been empty, also
  when it returns without waiting. When the lookup misses, the vector is passed to the
  wrapped session as the caller gave it.
\<close>

theorem Run_clears_outputs_on_hit_only:
  "(\<forall>task. fst (Run wrapped batch_schedulers ins output_names target_node_names outs s)
             = Waiting task \<longrightarrow>
      outputs task = [] \<and>
      Run wrapped batch_schedulers ins output_names target_node_names outs s
        = Run wrapped batch_schedulers ins output_names target_node_names [] s) \<and>
   (target_node_names = [] \<and>
    batch_schedulers (TensorSignatureFromRunArgs ins output_names) = Some batch_scheduler \<longrightarrow>
      Run wrapped batch_schedulers ins output_names target_node_names outs s
        = Run wrapped batch_schedulers ins output_names target_node_names [] s \<and>
      (\<forall>st outs'. fst (Run wrapped batch_schedulers ins output_names target_node_names outs s)
                 = Returned st outs' \<longrightarrow> outs' = [])) \<and>
   (target_node_names = [] \<and>
    batch_schedulers (TensorSignatureFromRunArgs ins output_names) = None \<longrightarrow>
      Run wrapped batch_schedulers ins output_names target_node_names outs s
        = (Returned (fst (fst (wrapped s ins output_names [] outs)))
             (snd (fst (wrapped s ins output_names [] outs))),
           snd (wrapped s ins output_names [] outs)))"
proof (intro conjI allI impI)
  fix task
  assume w: "fst (Run wrapped batch_schedulers ins output_names target_node_names outs s)
      = Waiting task"
  then show "outputs task = []"
    by (simp add: Run_Waiting_checked)
  from w obtain batch_scheduler' where
    "target_node_names = []"
    "batch_schedulers (TensorSignatureFromRunArgs ins output_names) = Some batch_scheduler'"
    by (cases "batch_schedulers (TensorSignatureFromRunArgs ins output_names)")
       (auto simp: Run_def split: if_splits prod.splits)
  then show "Run wrapped batch_schedulers ins output_names target_node_names outs s
        = Run wrapped batch_schedulers ins output_names target_node_names [] s"
    by (simp add: Run_def)
qed (auto simp: Run_def Let_def split: prod.splits if_splits)

theorem Run_clears_outputs_on_hit_only_witness:
  "Run double_engine schedulers_x_y [(''x'', Rows [1, 2])] [''y''] [] [Rows [7]] 0
     = (Waiting \<lparr>zeroth_dim_size = 2, inputs = [(''x'', Rows [1, 2])],
                  output_tensor_names = [''y''], outputs = [], status = OK,
                  done_notified = 0\<rparr>, 0) \<and>
   Run double_engine schedulers_x_y [(''z'', Rows [1, 2])] [''y''] [] [Rows [7]] 0
     = (Returned OK [Rows [7], Rows [2, 4]], 1)"
  using Run_clears_outputs_on_hit_only [of double_engine schedulers_x_y "[(''x'', Rows [1, 2])]"
      "[''y'']" "[]" "[Rows [7]]" 0 accept_all]
    Run_clears_outputs_on_hit_only [of double_engine schedulers_x_y "[(''z'', Rows [1, 2])]"
      "[''y'']" "[]" "[Rows [7]]" 0 accept_all]
  by (simp add: sig_x_y_hit sig_z_y_miss Run_def ComputeInputSize_def)

section \<open>Results about the output splitter\<close>

lemma RoundToLowestAllowedBatchSize_ge: "n \<le> RoundToLowestAllowedBatchSize options n"
proof -
  have "first_allowed_size allowed n = Some a \<Longrightarrow> n \<le> a" for allowed a
    by (induction allowed) (auto split: if_splits)
  then show ?thesis
    by (auto simp: RoundToLowestAllowedBatchSize_def split: option.splits)
qed

lemma padding_size_of_nonneg: "0 \<le> padding_size_of options batch"
  using RoundToLowestAllowedBatchSize_ge [of "int (Batch_size batch)" options]
  by (simp add: padding_size_of_def)

lemma sum_list_task_sizes:
  "sum_list (task_sizes_plus_optional_padding options batch)
     = Batch_size batch + nat (padding_size_of options batch)"
  using padding_size_of_nonneg [of options batch]
  by (simp add: task_sizes_plus_optional_padding_def Batch_size_def)

lemma length_task_sizes_ge:
  "length batch \<le> length (task_sizes_plus_optional_padding options batch)"
  by (simp add: task_sizes_plus_optional_padding_def)

lemma length_split_rows [simp]: "length (split_rows rows sizes) = length sizes"
  by (induction sizes arbitrary: rows) auto

lemma split_rows_nth:
  "j < length sizes \<Longrightarrow>
   split_rows rows sizes ! j = Rows (take (sizes ! j) (drop (sum_list (take j sizes)) rows))"
proof (induction sizes arbitrary: rows j)
  case Nil
  then show ?case by simp
next
  case (Cons n sizes)
  show ?case
  proof (cases j)
    case 0
    then show ?thesis by simp
  next
    case (Suc j')
    with Cons.prems have "j' < length sizes" by simp
    from Cons.IH [OF this, of "drop n rows"] Suc show ?thesis
      by (simp add: add.commute)
  qed
qed

text \<open>The filling loop never aborts and every vector it stores has one part per size.\<close>

lemma populate_split_tensors_total:
  "sum_list sizes = expected_size \<Longrightarrow>
   populate_split_tensors sizes expected_size pairs split_tensors \<noteq> None"
  by (induction sizes expected_size pairs split_tensors rule: populate_split_tensors.induct)
     auto

lemma populate_split_tensors_lookup:
  "populate_split_tensors sizes expected_size pairs split_tensors = Some (Inr split_tensors') \<Longrightarrow>
   distinct (map fst pairs) \<Longrightarrow>
   fmlookup split_tensors' tensor_name =
     (case map_of pairs tensor_name of
        None \<Rightarrow> fmlookup split_tensors tensor_name
      | Some tensor \<Rightarrow> Split tensor sizes)"
proof (induction sizes expected_size pairs split_tensors rule: populate_split_tensors.induct)
  case (1 sizes expected_size split_tensors)
  then show ?case by simp
next
  case (2 sizes expected_size tensor_name v rest split_tensors)
  then show ?case by simp
next
  case (3 sizes expected_size name rows rest split_tensors)
  from "3.prems" obtain split_tensor where
    sp: "Split (Rows rows) sizes = Some split_tensor" and
    len: "length rows = expected_size" "length split_tensor = length sizes" and
    rec: "populate_split_tensors sizes expected_size rest (fmupd name split_tensor split_tensors)
            = Some (Inr split_tensors')"
    by (auto split: if_splits option.splits)
  from "3.prems" have d: "distinct (map fst rest)" and nin: "name \<notin> fst ` set rest" by auto
  from nin have mo: "map_of rest name = None" by (simp add: map_of_eq_None_iff)
  have "fmlookup split_tensors' tensor_name =
     (case map_of rest tensor_name of
        None \<Rightarrow> fmlookup (fmupd name split_tensor split_tensors) tensor_name
      | Some tensor \<Rightarrow> Split tensor sizes)"
    using "3.IH" [of split_tensor] sp len rec d by (simp split: if_splits)
  with sp mo show ?case by (auto split: option.splits)
qed

lemma populate_split_tensors_shapes:
  "populate_split_tensors sizes expected_size pairs split_tensors = Some (Inr split_tensors') \<Longrightarrow>
   (name, tensor) \<in> set pairs \<Longrightarrow>
   \<exists>rows. tensor = Rows rows \<and> length rows = expected_size \<and> sum_list sizes = expected_size"
  by (induction sizes expected_size pairs split_tensors rule: populate_split_tensors.induct)
     (auto split: if_splits option.splits)


lemma distinct_sorted_list_of_fset [simp]: "distinct (sorted_list_of_fset S)"
  by (simp add: sorted_list_of_fset.rep_eq)

lemma sorted_sorted_list_of_fset [simp]: "sorted (sorted_list_of_fset S)"
  by (simp add: sorted_list_of_fset.rep_eq)

lemma length_sorted_list_of_fset [simp]: "length (sorted_list_of_fset S) = fcard S"
  by (simp add: sorted_list_of_fset.rep_eq fcard.rep_eq)

lemma push_task_outputs_OK:
  "push_task_outputs i names split_tensors task_outputs = Some (OK, task_outputs') \<Longrightarrow>
   task_outputs' = task_outputs @ map (\<lambda>n. the (fmlookup split_tensors n) ! i) names \<and>
   (\<forall>n \<in> set names. \<exists>v. fmlookup split_tensors n = Some v \<and> i < length v)"
  by (induction i names split_tensors task_outputs rule: push_task_outputs.induct)
     (auto split: option.splits if_splits)

lemma push_task_outputs_total:
  "(\<And>n v. fmlookup split_tensors n = Some v \<Longrightarrow> i < length v) \<Longrightarrow>
   push_task_outputs i names split_tensors task_outputs \<noteq> None"
  by (induction i names split_tensors task_outputs rule: push_task_outputs.induct)
     (auto split: option.splits)

lemma split_into_tasks_frame:
  "split_into_tasks i batch split_tensors = Some (st, batch') \<Longrightarrow>
   length batch' = length batch \<and>
   (\<forall>j < length batch. \<exists>task_outputs. batch' ! j = (batch ! j)\<lparr>outputs := task_outputs\<rparr>)"
proof (induction i batch split_tensors arbitrary: st batch' rule: split_into_tasks.induct)
  case (1 i split_tensors)
  then show ?case by simp
next
  case (2 i task rest split_tensors)
  from "2.prems" obtain st1 outs1 where
    p: "push_task_outputs i (output_tensor_names task) split_tensors (outputs task) = Some (st1, outs1)"
    by (auto split: option.splits)
  show ?case
  proof (cases "ok st1")
    case False
    with "2.prems" p have b: "batch' = task\<lparr>outputs := outs1\<rparr> # rest" by simp
    have "\<exists>task_outputs. batch' ! j = ((task # rest) ! j)\<lparr>outputs := task_outputs\<rparr>"
      if "j < length (task # rest)" for j
    proof (cases j)
      case 0
      with b show ?thesis by auto
    next
      case (Suc j')
      with b have "batch' ! j = ((task # rest) ! j)\<lparr>outputs := outputs ((task # rest) ! j)\<rparr>"
        by simp
      then show ?thesis by blast
    qed
    with b show ?thesis by simp
  next
    case True
    with "2.prems" p obtain rest' where
      r: "split_into_tasks (Suc i) rest split_tensors = Some (st, rest')" and
      b: "batch' = task\<lparr>outputs := outs1\<rparr> # rest'"
      by (auto split: option.splits)
    from "2.IH" [OF p refl _ r] True
    have ih: "length rest' = length rest"
      "\<And>j. j < length rest \<Longrightarrow> \<exists>task_outputs. rest' ! j = (rest ! j)\<lparr>outputs := task_outputs\<rparr>"
      by auto
    have "\<exists>task_outputs. batch' ! j = ((task # rest) ! j)\<lparr>outputs := task_outputs\<rparr>"
      if "j < length (task # rest)" for j
    proof (cases j)
      case 0
      with b show ?thesis by auto
    next
      case (Suc j')
      with that ih(2) [of j'] b show ?thesis by simp
    qed
    with b ih(1) show ?thesis by simp
  qed
qed

lemma split_into_tasks_OK:
  "split_into_tasks i batch split_tensors = Some (OK, batch') \<Longrightarrow>
   length batch' = length batch \<and>
   (\<forall>j < length batch.
      batch' ! j = (batch ! j)\<lparr>outputs := outputs (batch ! j) @
          map (\<lambda>n. the (fmlookup split_tensors n) ! (i + j)) (output_tensor_names (batch ! j))\<rparr> \<and>
      (\<forall>n \<in> set (output_tensor_names (batch ! j)).
          \<exists>v. fmlookup split_tensors n = Some v \<and> i + j < length v))"
proof (induction i batch split_tensors arbitrary: batch' rule: split_into_tasks.induct)
  case (1 i split_tensors)
  then show ?case by simp
next
  case (2 i task rest split_tensors)
  from "2.prems" obtain st1 outs1 where
    p: "push_task_outputs i (output_tensor_names task) split_tensors (outputs task) = Some (st1, outs1)"
    by (auto split: option.splits)
  from "2.prems" p have o: "ok st1"
    by (cases "ok st1") auto
  then have st1: "st1 = OK" by (cases st1) auto
  from "2.prems" p o obtain rest' where
    r: "split_into_tasks (Suc i) rest split_tensors = Some (OK, rest')" and
    b: "batch' = task\<lparr>outputs := outs1\<rparr> # rest'"
    by (auto split: option.splits)
  note h = push_task_outputs_OK [OF p [unfolded st1]]
  from "2.IH" [OF p refl _ r] o
  have ih: "length rest' = length rest"
    "\<And>j. j < length rest \<Longrightarrow>
      rest' ! j = (rest ! j)\<lparr>outputs := outputs (rest ! j) @
          map (\<lambda>n. the (fmlookup split_tensors n) ! (Suc i + j)) (output_tensor_names (rest ! j))\<rparr> \<and>
      (\<forall>n \<in> set (output_tensor_names (rest ! j)).
          \<exists>v. fmlookup split_tensors n = Some v \<and> Suc i + j < length v)"
    by auto
  have "batch' ! j = ((task # rest) ! j)\<lparr>outputs := outputs ((task # rest) ! j) @
          map (\<lambda>n. the (fmlookup split_tensors n) ! (i + j)) (output_tensor_names ((task # rest) ! j))\<rparr> \<and>
      (\<forall>n \<in> set (output_tensor_names ((task # rest) ! j)).
          \<exists>v. fmlookup split_tensors n = Some v \<and> i + j < length v)"
    if "j < length (task # rest)" for j
  proof (cases j)
    case 0
    with b h show ?thesis by simp
  next
    case (Suc j')
    with that ih(2) [of j'] b show ?thesis by simp
  qed
  with b ih(1) show ?case by simp
qed

lemma split_into_tasks_total:
  "(\<And>n v. fmlookup split_tensors n = Some v \<Longrightarrow> i + length batch \<le> length v) \<Longrightarrow>
   split_into_tasks i batch split_tensors \<noteq> None"
proof (induction i batch split_tensors rule: split_into_tasks.induct)
  case (1 i split_tensors)
  then show ?case by simp
next
  case (2 i task rest split_tensors)
  have "push_task_outputs i (output_tensor_names task) split_tensors (outputs task) \<noteq> None"
    using "2.prems" by (intro push_task_outputs_total) fastforce
  then obtain st1 outs1 where
    p: "push_task_outputs i (output_tensor_names task) split_tensors (outputs task) = Some (st1, outs1)"
    by auto
  show ?case
  proof (cases "ok st1")
    case False
    with p show ?thesis by simp
  next
    case True
    have "split_into_tasks (Suc i) rest split_tensors \<noteq> None"
      using "2.IH" [OF p refl] True "2.prems" by fastforce
    with p True show ?thesis by (auto split: option.splits)
  qed
qed


lemma task_sizes_nth:
  "j < length batch \<Longrightarrow>
   task_sizes_plus_optional_padding options batch ! j = zeroth_dim_size (batch ! j)"
  by (simp add: task_sizes_plus_optional_padding_def nth_append)

lemma task_sizes_take:
  "j < length batch \<Longrightarrow>
   sum_list (take j (task_sizes_plus_optional_padding options batch)) = Batch_size (take j batch)"
  by (simp add: task_sizes_plus_optional_padding_def Batch_size_def take_map)

lemma Batch_size_take_le:
  assumes "j < length batch"
  shows "Batch_size (take j batch) + zeroth_dim_size (batch ! j) \<le> Batch_size batch"
proof -
  from assms have "batch = take j batch @ batch ! j # drop (Suc j) batch"
    by (rule id_take_nth_drop)
  then have "Batch_size batch =
      Batch_size (take j batch) + zeroth_dim_size (batch ! j) + Batch_size (drop (Suc j) batch)"
    unfolding Batch_size_def by (metis map_append sum_list.append list.simps(9) sum_list.Cons add.assoc)
  then show ?thesis by simp
qed

lemma take_drop_within_prefix:
  "off + n \<le> b \<Longrightarrow> take n (drop off (take b rows)) = take n (drop off rows)"
  by (simp add: drop_take min_def)

lemma populate_split_tensors_Inl:
  "populate_split_tensors sizes expected_size pairs split_tensors = Some (Inl st) \<Longrightarrow> \<not> ok st"
  by (induction sizes expected_size pairs split_tensors rule: populate_split_tensors.induct)
     (auto split: if_splits option.splits)

lemma SplitOutputTensors_total:
  "SplitOutputTensors options signature combined_outputs batch \<noteq> None"
proof (cases "length batch < 1 \<or> length combined_outputs \<noteq> fcard (output_tensors signature)")
  case True
  then show ?thesis by (auto simp: SplitOutputTensors_def)
next
  case False
  let ?sizes = "task_sizes_plus_optional_padding options batch"
  let ?pairs = "zip (sorted_list_of_fset (output_tensors signature)) combined_outputs"
  let ?p = "populate_split_tensors ?sizes (Batch_size batch + nat (padding_size_of options batch))
              ?pairs fmempty"
  have "?p \<noteq> None"
    by (rule populate_split_tensors_total) (rule sum_list_task_sizes)
  then obtain r where p: "?p = Some r" by auto
  show ?thesis
  proof (cases r)
    case (Inl st)
    with p False show ?thesis by (simp add: SplitOutputTensors_def)
  next
    case (Inr split_tensors)
    have d: "distinct (map fst ?pairs)"
      using False by simp
    have "i + length batch \<le> length v" if "fmlookup split_tensors n = Some v" and "i = 0" for n v i
    proof -
      from populate_split_tensors_lookup [OF p [unfolded Inr] d, of n] that
      obtain tensor where "Split tensor ?sizes = Some v"
        by (auto split: option.splits)
      then have "length v = length ?sizes"
        by (cases tensor) (auto split: if_splits)
      with length_task_sizes_ge [of batch options] that show ?thesis by simp
    qed
    then have "split_into_tasks 0 batch split_tensors \<noteq> None"
      by (intro split_into_tasks_total) auto
    with p Inr False show ?thesis by (simp add: SplitOutputTensors_def)
  qed
qed

lemma SplitOutputTensors_frame:
  "SplitOutputTensors options signature combined_outputs batch = Some (st, batch') \<Longrightarrow>
   length batch' = length batch \<and>
   (\<forall>j < length batch. \<exists>task_outputs. batch' ! j = (batch ! j)\<lparr>outputs := task_outputs\<rparr>)"
proof -
  assume a: "SplitOutputTensors options signature combined_outputs batch = Some (st, batch')"
  have same: "\<exists>task_outputs. batch ! j = (batch ! j)\<lparr>outputs := task_outputs\<rparr>" for j
    by (rule exI [of _ "outputs (batch ! j)"]) simp
  show ?thesis
  proof (cases "batch' = batch")
    case True
    with same show ?thesis by simp
  next
    case False
    with a obtain split_tensors where "split_into_tasks 0 batch split_tensors = Some (st, batch')"
      by (auto simp: SplitOutputTensors_def split: if_splits option.splits sum.splits)
    then show ?thesis by (rule split_into_tasks_frame)
  qed
qed

lemma sorted_list_of_fset_single [simp]: "sorted_list_of_fset {|n|} = [n]"
  by (simp add: sorted_list_of_fset.rep_eq)

lemma fcard_single [simp]: "fcard {|n|} = 1"
  by (simp add: fcard_finsert_if)

lemma padding_ab: "padding_size_of options_4 [task_a, task_b] = 1"
  by (simp add: padding_size_of_def options_4_def Batch_size_def task_a_def task_b_def
      RoundToLowestAllowedBatchSize_def)

lemma split_ab:
  "SplitOutputTensors options_4 sig_x_y [Rows [2, 4, 6, 6]] [task_a, task_b]
     = Some (OK, [task_a\<lparr>outputs := [Rows [2, 4]]\<rparr>, task_b\<lparr>outputs := [Rows [6]]\<rparr>])"
  by (simp add: SplitOutputTensors_def sig_x_y_def padding_ab task_sizes_plus_optional_padding_def
      Batch_size_def) (simp add: task_a_def task_b_def)

lemma SplitOutputTensors_OK_parts:
  assumes "SplitOutputTensors options signature combined_outputs batch = Some (OK, batch')"
  shows "length batch' = length batch \<and>
    (\<forall>j < length batch.
       batch' ! j = (batch ! j)\<lparr>outputs := outputs (batch' ! j)\<rparr> \<and>
       length (outputs (batch' ! j))
         = length (outputs (batch ! j)) + length (output_tensor_names (batch ! j)) \<and>
       take (length (outputs (batch ! j))) (outputs (batch' ! j)) = outputs (batch ! j) \<and>
       (\<forall>k < length (output_tensor_names (batch ! j)).
          \<exists>i rows parts.
             i < fcard (output_tensors signature) \<and>
             sorted_list_of_fset (output_tensors signature) ! i
               = output_tensor_names (batch ! j) ! k \<and>
             combined_outputs ! i = Rows rows \<and>
             Split (Rows rows) (task_sizes_plus_optional_padding options batch) = Some parts \<and>
             outputs (batch' ! j) ! (length (outputs (batch ! j)) + k) = parts ! j \<and>
             parts ! j = Rows (take (zeroth_dim_size (batch ! j))
                           (drop (Batch_size (take j batch)) (take (Batch_size batch) rows)))))"
proof -
  let ?sizes = "task_sizes_plus_optional_padding options batch"
  let ?L = "sorted_list_of_fset (output_tensors signature)"
  let ?pairs = "zip ?L combined_outputs"
  let ?e = "Batch_size batch + nat (padding_size_of options batch)"
  from assms have len: "length combined_outputs = fcard (output_tensors signature)"
    by (auto simp: SplitOutputTensors_def split: if_splits)
  from assms obtain split_tensors where
    p: "populate_split_tensors ?sizes ?e ?pairs fmempty = Some (Inr split_tensors)" and
    t: "split_into_tasks 0 batch split_tensors = Some (OK, batch')"
    by (auto simp: SplitOutputTensors_def split: if_splits option.splits sum.splits
          dest: populate_split_tensors_Inl)
  have d: "distinct (map fst ?pairs)" using len by simp
  note tk = split_into_tasks_OK [OF t]
  have main: "batch' ! j = (batch ! j)\<lparr>outputs := outputs (batch' ! j)\<rparr> \<and>
       length (outputs (batch' ! j))
         = length (outputs (batch ! j)) + length (output_tensor_names (batch ! j)) \<and>
       take (length (outputs (batch ! j))) (outputs (batch' ! j)) = outputs (batch ! j) \<and>
       (\<forall>k < length (output_tensor_names (batch ! j)).
          \<exists>i rows parts.
             i < fcard (output_tensors signature) \<and>
             ?L ! i = output_tensor_names (batch ! j) ! k \<and>
             combined_outputs ! i = Rows rows \<and>
             Split (Rows rows) ?sizes = Some parts \<and>
             outputs (batch' ! j) ! (length (outputs (batch ! j)) + k) = parts ! j \<and>
             parts ! j = Rows (take (zeroth_dim_size (batch ! j))
                           (drop (Batch_size (take j batch)) (take (Batch_size batch) rows))))"
    if j: "j < length batch" for j
  proof -
    let ?names = "output_tensor_names (batch ! j)"
    let ?new = "map (\<lambda>n. the (fmlookup split_tensors n) ! j) ?names"
    from tk j have b: "batch' ! j = (batch ! j)\<lparr>outputs := outputs (batch ! j) @ ?new\<rparr>"
      and found: "\<And>n. n \<in> set ?names \<Longrightarrow> \<exists>v. fmlookup split_tensors n = Some v \<and> j < length v"
      by auto
    from b have o: "outputs (batch' ! j) = outputs (batch ! j) @ ?new" by simp
    have each: "\<exists>i rows parts.
             i < fcard (output_tensors signature) \<and>
             ?L ! i = ?names ! k \<and>
             combined_outputs ! i = Rows rows \<and>
             Split (Rows rows) ?sizes = Some parts \<and>
             outputs (batch' ! j) ! (length (outputs (batch ! j)) + k) = parts ! j \<and>
             parts ! j = Rows (take (zeroth_dim_size (batch ! j))
                           (drop (Batch_size (take j batch)) (take (Batch_size batch) rows)))"
      if k: "k < length ?names" for k
    proof -
      let ?n = "?names ! k"
      from k found [of ?n] obtain v where v: "fmlookup split_tensors ?n = Some v" by auto
      with populate_split_tensors_lookup [OF p d, of ?n]
      obtain tensor where m: "map_of ?pairs ?n = Some tensor" and sp: "Split tensor ?sizes = Some v"
        by (auto split: option.splits)
      from m have "(?n, tensor) \<in> set ?pairs" by (rule map_of_SomeD)
      then obtain i where i: "i < length ?L" "?L ! i = ?n" "combined_outputs ! i = tensor"
        by (auto simp: in_set_zip)
      from populate_split_tensors_shapes [OF p \<open>(?n, tensor) \<in> set ?pairs\<close>]
      obtain rows where rows: "tensor = Rows rows" "length rows = ?e" by auto
      from sp rows have vv: "v = split_rows rows ?sizes" by (auto split: if_splits)
      from j length_task_sizes_ge [of batch options] have jl: "j < length ?sizes" by simp
      have "v ! j = Rows (take (zeroth_dim_size (batch ! j)) (drop (Batch_size (take j batch)) rows))"
        using split_rows_nth [OF jl, of rows] vv j by (simp add: task_sizes_nth task_sizes_take)
      also have "\<dots> = Rows (take (zeroth_dim_size (batch ! j))
                           (drop (Batch_size (take j batch)) (take (Batch_size batch) rows)))"
        using Batch_size_take_le [OF j] by (simp add: take_drop_within_prefix)
      finally have part: "v ! j = Rows (take (zeroth_dim_size (batch ! j))
                           (drop (Batch_size (take j batch)) (take (Batch_size batch) rows)))" .
      from o k v have "outputs (batch' ! j) ! (length (outputs (batch ! j)) + k) = v ! j"
        by simp
      with i rows sp part show ?thesis by (intro exI [of _ i] exI [of _ rows] exI [of _ v]) simp
    qed
    from b o each show ?thesis by simp
  qed
  from tk main show ?thesis by blast
qed

text \<open>
  Claim C2. When \<^verbatim>\<open>SplitOutputTensors\<close> succeeds, every task keeps its fields and its
  earlier outputs, and gains one output per requested name, in the order of the requested
  names. The output for the \<open>k\<close>-th requested name of task \<open>j\<close> is part \<open>j\<close> of the split,
  by the task sizes plus the optional padding entry, of the combined output paired with
  that name; that part is the task's own rows of the unpadded prefix of the combined
  tensor, so no padding row reaches a task.
\<close>

theorem SplitOutputTensors_order_law:
  assumes "SplitOutputTensors options signature combined_outputs batch = Some (OK, batch')"
  shows "length batch' = length batch \<and>
    (\<forall>j < length batch.
       batch' ! j = (batch ! j)\<lparr>outputs := outputs (batch' ! j)\<rparr> \<and>
       length (outputs (batch' ! j))
         = length (outputs (batch ! j)) + length (output_tensor_names (batch ! j)) \<and>
       take (length (outputs (batch ! j))) (outputs (batch' ! j)) = outputs (batch ! j) \<and>
       (\<forall>k < length (output_tensor_names (batch ! j)).
          \<exists>i rows parts.
             i < fcard (output_tensors signature) \<and>
             sorted_list_of_fset (output_tensors signature) ! i
               = output_tensor_names (batch ! j) ! k \<and>
             combined_outputs ! i = Rows rows \<and>
             Split (Rows rows) (task_sizes_plus_optional_padding options batch) = Some parts \<and>
             outputs (batch' ! j) ! (length (outputs (batch ! j)) + k) = parts ! j \<and>
             parts ! j = Rows (take (zeroth_dim_size (batch ! j))
                           (drop (Batch_size (take j batch)) (take (Batch_size batch) rows)))))"
  using assms by (rule SplitOutputTensors_OK_parts)

theorem SplitOutputTensors_order_law_witness:
  "SplitOutputTensors options_4 sig_x_y [Rows [2, 4, 6, 6]] [task_a, task_b]
     = Some (OK, [task_a\<lparr>outputs := [Rows [2, 4]]\<rparr>, task_b\<lparr>outputs := [Rows [6]]\<rparr>]) \<and>
   task_sizes_plus_optional_padding options_4 [task_a, task_b] = [2, 1, 1] \<and>
   Split (Rows [2, 4, 6, 6 :: int]) [2, 1, 1] = Some [Rows [2, 4], Rows [6], Rows [6]]"
  using SplitOutputTensors_order_law [OF split_ab]
  by (simp add: split_ab task_sizes_plus_optional_padding_def padding_ab)
     (simp add: task_a_def task_b_def)

section \<open>Results about the batch driver\<close>

lemma cleanup_nth:
  "j < length batch \<Longrightarrow>
   status (cleanup st batch ! j) = st \<and>
   done_notified (cleanup st batch ! j) = Suc (done_notified (batch ! j))"
  by (simp add: cleanup_def)

lemma length_cleanup [simp]: "length (cleanup st batch) = length batch"
  by (simp add: cleanup_def)

lemma merge_ab:
  "MergeInputTensors options_4 sig_x_y [task_a, task_b] []
     = Some (OK, [(''x'', Rows [1, 2, 3, 3])])"
  by (simp add: MergeInputTensors_def padding_ab sig_x_y_def Concat_def)
     (simp add: task_a_def task_b_def Concat_def)

lemma sig_x_y_outputs: "output_tensors sig_x_y = {|''y''|}"
  by (simp add: sig_x_y_def)

lemma process_ab:
  "ProcessBatch options_4 double_engine sig_x_y [task_a, task_b] 0
     = Some ([task_a\<lparr>outputs := [Rows [2, 4]], status := OK, done_notified := 1\<rparr>,
              task_b\<lparr>outputs := [Rows [6]], status := OK, done_notified := 1\<rparr>], 1)"
  by (simp add: ProcessBatch_def merge_ab sig_x_y_outputs split_ab cleanup_def)
     (simp add: task_a_def task_b_def)

lemma process_ab_failing:
  "ProcessBatch options_4 failing_engine sig_x_y [task_a, task_b] 0
     = Some ([task_a\<lparr>status := Error UNAVAILABLE ''engine down'', done_notified := 1\<rparr>,
              task_b\<lparr>status := Error UNAVAILABLE ''engine down'', done_notified := 1\<rparr>], 1)"
  by (simp add: ProcessBatch_def merge_ab cleanup_def)
     (simp add: task_a_def task_b_def)

lemma ProcessBatch_exits:
  assumes "batch \<noteq> []" and "MergeInputTensors options signature batch [] \<noteq> None"
  shows "\<exists>batch' s' st.
     ProcessBatch options wrapped signature batch s = Some (batch', s') \<and>
     length batch' = length batch \<and>
     (\<forall>j < length batch.
        status (batch' ! j) = st \<and>
        done_notified (batch' ! j) = Suc (done_notified (batch ! j))) \<and>
     (\<forall>merge_status merged_inputs.
        MergeInputTensors options signature batch [] = Some (merge_status, merged_inputs) \<longrightarrow>
        (if \<not> ok merge_status then st = merge_status \<and> s' = s
         else \<forall>run_status combined_outputs s1.
           wrapped s merged_inputs (sorted_list_of_fset (output_tensors signature)) [] []
             = ((run_status, combined_outputs), s1) \<longrightarrow>
           s' = s1 \<and>
           (if \<not> ok run_status then st = run_status
            else \<exists>split_batch.
              SplitOutputTensors options signature combined_outputs batch
                = Some (st, split_batch))))"
proof -
  from assms(2) obtain merge_status merged_inputs where
    m: "MergeInputTensors options signature batch [] = Some (merge_status, merged_inputs)"
    by auto
  show ?thesis
  proof (cases "ok merge_status")
    case False
    with assms(1) m have "ProcessBatch options wrapped signature batch s
        = Some (cleanup merge_status batch, s)"
      by (simp add: ProcessBatch_def)
    with m False show ?thesis
      by (intro exI [of _ "cleanup merge_status batch"] exI [of _ s] exI [of _ merge_status])
         (simp add: cleanup_nth)
  next
    case True
    obtain run_status combined_outputs s1 where
      w: "wrapped s merged_inputs (sorted_list_of_fset (output_tensors signature)) [] []
            = ((run_status, combined_outputs), s1)"
      by (metis prod.exhaust)
    show ?thesis
    proof (cases "ok run_status")
      case False
      with assms(1) m True w have "ProcessBatch options wrapped signature batch s
          = Some (cleanup run_status batch, s1)"
        by (simp add: ProcessBatch_def)
      with m True w False show ?thesis
        by (intro exI [of _ "cleanup run_status batch"] exI [of _ s1] exI [of _ run_status])
           (simp add: cleanup_nth)
    next
      case ok_run: True
      obtain split_status split_batch where
        sp: "SplitOutputTensors options signature combined_outputs batch
              = Some (split_status, split_batch)"
        using SplitOutputTensors_total [of options signature combined_outputs batch] by auto
      note fr = SplitOutputTensors_frame [OF sp]
      from assms(1) m True w ok_run sp have pb: "ProcessBatch options wrapped signature batch s
          = Some (cleanup split_status split_batch, s1)"
        by (simp add: ProcessBatch_def)
      have "status (cleanup split_status split_batch ! j) = split_status \<and>
          done_notified (cleanup split_status split_batch ! j) = Suc (done_notified (batch ! j))"
        if "j < length batch" for j
      proof -
        from fr that obtain task_outputs where
          "split_batch ! j = (batch ! j)\<lparr>outputs := task_outputs\<rparr>" by auto
        with fr that cleanup_nth [of j split_batch split_status] show ?thesis by simp
      qed
      with pb m True w ok_run sp fr show ?thesis
        by (intro exI [of _ "cleanup split_status split_batch"] exI [of _ s1]
              exI [of _ split_status]) simp
    qed
  qed
qed


text \<open>
  Claim C1. For a non-empty closed batch, \<^verbatim>\<open>ProcessBatch\<close> fails to return only when
  a tensor primitive aborts the process inside the merger. Whenever it returns, every
  task holds one and the same status and has been notified exactly once more than
  before. That status is the merger's when the merger fails, else the wrapped session's
  when it fails, else the splitter's (an error or \<open>OK\<close>).
\<close>

theorem ProcessBatch_cleanup_on_every_exit:
  assumes "batch \<noteq> []"
  shows "(ProcessBatch options wrapped signature batch s = None \<longleftrightarrow>
            MergeInputTensors options signature batch [] = None) \<and>
     (\<forall>batch' s'.
        ProcessBatch options wrapped signature batch s = Some (batch', s') \<longrightarrow>
        length batch' = length batch \<and>
        (\<exists>st.
           (\<forall>j < length batch.
              status (batch' ! j) = st \<and>
              done_notified (batch' ! j) = Suc (done_notified (batch ! j))) \<and>
           (\<forall>merge_status merged_inputs.
              MergeInputTensors options signature batch [] = Some (merge_status, merged_inputs) \<longrightarrow>
              (if \<not> ok merge_status then st = merge_status \<and> s' = s
               else \<forall>run_status combined_outputs s1.
                 wrapped s merged_inputs (sorted_list_of_fset (output_tensors signature)) [] []
                   = ((run_status, combined_outputs), s1) \<longrightarrow>
                 s' = s1 \<and>
                 (if \<not> ok run_status then st = run_status
                  else \<exists>split_batch.
                    SplitOutputTensors options signature combined_outputs batch
                      = Some (st, split_batch))))))"
proof (intro conjI allI impI)
  show "ProcessBatch options wrapped signature batch s = None \<longleftrightarrow>
      MergeInputTensors options signature batch [] = None"
  proof
    assume n: "ProcessBatch options wrapped signature batch s = None"
    show "MergeInputTensors options signature batch [] = None"
    proof (rule ccontr)
      assume "MergeInputTensors options signature batch [] \<noteq> None"
      from ProcessBatch_exits [OF assms this, of wrapped s] n show False by auto
    qed
  next
    assume "MergeInputTensors options signature batch [] = None"
    with assms show "ProcessBatch options wrapped signature batch s = None"
      by (simp add: ProcessBatch_def)
  qed
next
  fix batch' s'
  assume r: "ProcessBatch options wrapped signature batch s = Some (batch', s')"
  have "MergeInputTensors options signature batch [] \<noteq> None"
  proof
    assume "MergeInputTensors options signature batch [] = None"
    with assms have "ProcessBatch options wrapped signature batch s = None"
      by (simp add: ProcessBatch_def)
    with r show False by simp
  qed
  from ProcessBatch_exits [OF assms this, of wrapped s] r
  show "length batch' = length batch" by auto
  from ProcessBatch_exits [OF assms \<open>MergeInputTensors options signature batch [] \<noteq> None\<close>,
      of wrapped s] r
  show "\<exists>st.
           (\<forall>j < length batch.
              status (batch' ! j) = st \<and>
              done_notified (batch' ! j) = Suc (done_notified (batch ! j))) \<and>
           (\<forall>merge_status merged_inputs.
              MergeInputTensors options signature batch [] = Some (merge_status, merged_inputs) \<longrightarrow>
              (if \<not> ok merge_status then st = merge_status \<and> s' = s
               else \<forall>run_status combined_outputs s1.
                 wrapped s merged_inputs (sorted_list_of_fset (output_tensors signature)) [] []
                   = ((run_status, combined_outputs), s1) \<longrightarrow>
                 s' = s1 \<and>
                 (if \<not> ok run_status then st = run_status
                  else \<exists>split_batch.
                    SplitOutputTensors options signature combined_outputs batch
                      = Some (st, split_batch))))"
    by (elim exE conjE) (simp only: option.inject prod.inject, blast)
qed

lemma merge_ab_xw:
  "MergeInputTensors options_4 sig_xw_y [task_a, task_b] []
     = Some (Error INTERNAL ''One or more tasks does not conform to batch signature'', [])"
  by (simp add: MergeInputTensors_def padding_ab sig_xw_y_def)
     (simp add: task_a_def task_b_def fcard_finsert_if)

theorem ProcessBatch_cleanup_on_every_exit_witness:
  "ProcessBatch options_4 double_engine sig_x_y [task_a, task_b] 0
     = Some ([task_a\<lparr>outputs := [Rows [2, 4]], status := OK, done_notified := 1\<rparr>,
              task_b\<lparr>outputs := [Rows [6]], status := OK, done_notified := 1\<rparr>], 1) \<and>
   ProcessBatch options_4 failing_engine sig_x_y [task_a, task_b] 0
     = Some ([task_a\<lparr>status := Error UNAVAILABLE ''engine down'', done_notified := 1\<rparr>,
              task_b\<lparr>status := Error UNAVAILABLE ''engine down'', done_notified := 1\<rparr>], 1) \<and>
   ProcessBatch options_4 double_engine sig_xw_y [task_a, task_b] 0
     = Some (cleanup (Error INTERNAL ''One or more tasks does not conform to batch signature'')
               [task_a, task_b], 0)"
proof -
  have ne: "[task_a, task_b] \<noteq> []" by simp
  have m: "MergeInputTensors options_4 sig_x_y [task_a, task_b] [] \<noteq> None"
    by (simp add: merge_ab)
  have x: "ProcessBatch options_4 double_engine sig_xw_y [task_a, task_b] 0
     = Some (cleanup (Error INTERNAL ''One or more tasks does not conform to batch signature'')
               [task_a, task_b], 0)"
    by (simp add: ProcessBatch_def merge_ab_xw)
  from ProcessBatch_cleanup_on_every_exit [OF ne, of options_4 double_engine sig_x_y 0]
    ProcessBatch_cleanup_on_every_exit [OF ne, of options_4 failing_engine sig_x_y 0]
    ProcessBatch_cleanup_on_every_exit [OF ne, of options_4 double_engine sig_xw_y 0] m
  show ?thesis by (simp add: process_ab process_ab_failing x)
qed

lemma cleanup_outputs:
  "j < length batch \<Longrightarrow> outputs (cleanup st batch ! j) = outputs (batch ! j)"
  by (simp add: cleanup_def)

lemma sorted_yz: "sorted_list_of_fset {|''z'', ''y''|} = [''y'', ''z'']"
  by (simp add: sorted_list_of_fset.rep_eq)

lemma fcard_yz: "fcard {|''z'', ''y''|} = 2"
  by (simp add: fcard_finsert_if)

lemma padding_cd: "padding_size_of options_4 [task_c, task_d] = 1"
  by (simp add: padding_size_of_def options_4_def Batch_size_def task_c_def task_d_def
      RoundToLowestAllowedBatchSize_def)

lemma merge_cd:
  "MergeInputTensors options_4 sig_x_yz [task_c, task_d] []
     = Some (OK, [(''x'', Rows [1, 2, 3, 3])])"
  by (simp add: MergeInputTensors_def padding_cd sig_x_yz_def Concat_def)
     (simp add: task_c_def task_d_def Concat_def)

lemma engine_cd:
  "named_engine 0 [(''x'', Rows [1, 2, 3, 3])] [''y'', ''z''] [] []
     = ((OK, [Rows [2, 4, 6, 6], Rows [3, 6, 9, 9]]), 1)"
  by simp

lemma split_cd:
  "SplitOutputTensors options_4 sig_x_yz [Rows [2, 4, 6, 6], Rows [3, 6, 9, 9]] [task_c, task_d]
     = Some (OK, [task_c\<lparr>outputs := [Rows [3, 6], Rows [2, 4]]\<rparr>,
                  task_d\<lparr>outputs := [Rows [6], Rows [9]]\<rparr>])"
  by (simp add: SplitOutputTensors_def sig_x_yz_def padding_cd sorted_yz fcard_yz
      task_sizes_plus_optional_padding_def Batch_size_def)
     (simp add: task_c_def task_d_def)

lemma process_cd:
  "ProcessBatch options_4 named_engine sig_x_yz [task_c, task_d] 0
     = Some ([task_c\<lparr>outputs := [Rows [3, 6], Rows [2, 4]], status := OK, done_notified := 1\<rparr>,
              task_d\<lparr>outputs := [Rows [6], Rows [9]], status := OK, done_notified := 1\<rparr>], 1)"
proof -
  have o: "sorted_list_of_fset (output_tensors sig_x_yz) = [''y'', ''z'']"
    by (simp add: sig_x_yz_def sorted_yz)
  show ?thesis
    by (simp add: ProcessBatch_def merge_cd o split_cd cleanup_def)
       (simp add: task_c_def task_d_def)
qed

text \<open>
  Claim C9. The list of output names is the increasing enumeration of the signature's
  output set, and \<^verbatim>\<open>ProcessBatch\<close> calls the wrapped session with exactly this list
  (and no target nodes and an empty \<^verbatim>\<open>outputs\<close>). When the merger and the wrapped
  session succeed and \<^verbatim>\<open>ProcessBatch\<close> ends with status \<open>OK\<close>, the tensors the
  wrapped session returned for that list are the ones split: a task that asked for the
  \<open>i\<close>-th name of the list holds, at the position of that request, its part of the
  \<open>i\<close>-th returned tensor.
\<close>

theorem output_names_order_shared:
  assumes ne: "batch \<noteq> []"
    and m: "MergeInputTensors options signature batch [] = Some (OK, merged_inputs)"
    and e: "wrapped s merged_inputs (sorted_list_of_fset (output_tensors signature)) [] []
              = ((OK, combined_outputs), s1)"
    and r: "ProcessBatch options wrapped signature batch s = Some (batch', s')"
    and fin: "status (batch' ! 0) = OK"
  shows "sorted (sorted_list_of_fset (output_tensors signature)) \<and>
    distinct (sorted_list_of_fset (output_tensors signature)) \<and>
    set (sorted_list_of_fset (output_tensors signature)) = fset (output_tensors signature) \<and>
    ProcessBatch options wrapped signature batch s =
      ProcessBatch options
        (\<lambda>s' ins names targets outs.
           wrapped s' ins (sorted_list_of_fset (output_tensors signature)) [] [])
        signature batch s \<and>
    s' = s1 \<and> length batch' = length batch \<and>
    length combined_outputs = length (sorted_list_of_fset (output_tensors signature)) \<and>
    (\<forall>i < length (sorted_list_of_fset (output_tensors signature)). \<forall>j < length batch.
       \<forall>k < length (output_tensor_names (batch ! j)).
         output_tensor_names (batch ! j) ! k
           = sorted_list_of_fset (output_tensors signature) ! i \<longrightarrow>
         (\<exists>parts.
            Split (combined_outputs ! i) (task_sizes_plus_optional_padding options batch)
              = Some parts \<and>
            outputs (batch' ! j) ! (length (outputs (batch ! j)) + k) = parts ! j))"
proof -
  let ?L = "sorted_list_of_fset (output_tensors signature)"
  obtain split_status split_batch where
    sp: "SplitOutputTensors options signature combined_outputs batch
          = Some (split_status, split_batch)"
    using SplitOutputTensors_total [of options signature combined_outputs batch] by auto
  from ne m e sp have pb: "ProcessBatch options wrapped signature batch s
      = Some (cleanup split_status split_batch, s1)"
    by (simp add: ProcessBatch_def)
  with r have b': "batch' = cleanup split_status split_batch" and s': "s' = s1" by simp_all
  note fr = SplitOutputTensors_frame [OF sp]
  from fr ne have len: "length split_batch = length batch" and pos: "0 < length split_batch"
    by auto
  from fin b' pos have st: "split_status = OK"
    by (simp add: cleanup_nth)
  note parts = SplitOutputTensors_OK_parts [OF sp [unfolded st]]
  from sp st have lc: "length combined_outputs = length ?L"
    by (auto simp: SplitOutputTensors_def split: if_splits)
  have attr: "\<exists>parts.
        Split (combined_outputs ! i) (task_sizes_plus_optional_padding options batch) = Some parts \<and>
        outputs (batch' ! j) ! (length (outputs (batch ! j)) + k) = parts ! j"
    if i: "i < length ?L" and j: "j < length batch"
      and k: "k < length (output_tensor_names (batch ! j))"
      and eq: "output_tensor_names (batch ! j) ! k = ?L ! i" for i j k
  proof -
    from parts j k obtain i' rows ps where
      i': "i' < fcard (output_tensors signature)" "?L ! i' = output_tensor_names (batch ! j) ! k" and
      q: "combined_outputs ! i' = Rows rows"
         "Split (Rows rows) (task_sizes_plus_optional_padding options batch) = Some ps"
         "outputs (split_batch ! j) ! (length (outputs (batch ! j)) + k) = ps ! j"
      by blast
    from i i' eq have "i' = i" by (simp add: nth_eq_iff_index_eq)
    moreover from j len b' have "outputs (batch' ! j) = outputs (split_batch ! j)"
      by (simp add: cleanup_outputs)
    ultimately show ?thesis using q by auto
  qed
  have same: "ProcessBatch options wrapped signature batch s =
      ProcessBatch options (\<lambda>s' ins names targets outs. wrapped s' ins ?L [] [])
        signature batch s"
    by (simp add: ProcessBatch_def)
  from same s' b' len lc attr show ?thesis by simp
qed


theorem output_names_order_shared_witness:
  "sorted_list_of_fset (output_tensors sig_x_yz) = [''y'', ''z''] \<and>
   named_engine 0 [(''x'', Rows [1, 2, 3, 3])] [''y'', ''z''] [] []
     = ((OK, [Rows [2, 4, 6, 6], Rows [3, 6, 9, 9]]), 1) \<and>
   Split (Rows [2, 4, 6, 6 :: int]) (task_sizes_plus_optional_padding options_4 [task_c, task_d])
     = Some [Rows [2, 4], Rows [6], Rows [6]] \<and>
   Split (Rows [3, 6, 9, 9 :: int]) (task_sizes_plus_optional_padding options_4 [task_c, task_d])
     = Some [Rows [3, 6], Rows [9], Rows [9]] \<and>
   ProcessBatch options_4 named_engine sig_x_yz [task_c, task_d] 0
     = Some ([task_c\<lparr>outputs := [Rows [3, 6], Rows [2, 4]], status := OK, done_notified := 1\<rparr>,
              task_d\<lparr>outputs := [Rows [6], Rows [9]], status := OK, done_notified := 1\<rparr>], 1)"
proof -
  have o: "sorted_list_of_fset (output_tensors sig_x_yz) = [''y'', ''z'']"
    by (simp add: sig_x_yz_def sorted_yz)
  have ne: "[task_c, task_d] \<noteq> []" by simp
  have fin: "status ([task_c\<lparr>outputs := [Rows [3, 6], Rows [2, 4]], status := OK,
                            done_notified := 1\<rparr>,
                     task_d\<lparr>outputs := [Rows [6], Rows [9]], status := OK,
                            done_notified := 1\<rparr>] ! 0) = OK"
    by simp
  have sizes: "task_sizes_plus_optional_padding options_4 [task_c, task_d] = [2, 1, 1]"
    by (simp add: task_sizes_plus_optional_padding_def padding_cd) (simp add: task_c_def task_d_def)
  from output_names_order_shared [OF ne merge_cd engine_cd [folded o] process_cd fin]
  show ?thesis
    by (simp add: o engine_cd process_cd sizes)
qed

section \<open>Results about the input merger\<close>

lemma concat_rows_Rows:
  "(\<forall>t \<in> set tensors. \<exists>rows. t = Rows rows) \<Longrightarrow>
   concat_rows tensors = Some (concat (map tensor_rows tensors))"
  by (induction tensors rule: concat_rows.induct) auto

lemma Concat_Rows:
  "tensors \<noteq> [] \<Longrightarrow> (\<forall>t \<in> set tensors. \<exists>rows. t = Rows rows) \<Longrightarrow>
   Concat tensors = Some (Rows (concat (map tensor_rows tensors)))"
  by (simp add: Concat_def concat_rows_Rows)

lemma merge_task_inputs_lookup:
  assumes "distinct (map fst ins)"
    and "last_with_padding \<longrightarrow> (\<forall>e \<in> set ins. Slice (snd e) 0 1 \<noteq> None)"
  shows "\<exists>m'. merge_task_inputs last_with_padding padding_size ins m = Some m' \<and>
      (\<forall>n. fmlookup m' n =
         (case map_of ins n of
            None \<Rightarrow> fmlookup m n
          | Some t \<Rightarrow>
              Some ((case fmlookup m n of None \<Rightarrow> [] | Some v \<Rightarrow> v) @ t #
                    (if last_with_padding then replicate padding_size (the (Slice t 0 1))
                     else []))))"
  using assms
proof (induction ins arbitrary: m)
  case Nil
  then show ?case by simp
next
  case (Cons e ins)
  obtain name t where e: "e = (name, t)" by (cases e)
  let ?vec = "(case fmlookup m name of None \<Rightarrow> [] | Some v \<Rightarrow> v) @ [t]"
  let ?m1 = "fmupd name (?vec @ (if last_with_padding
                then replicate padding_size (the (Slice t 0 1)) else [])) m"
  from Cons.prems e have d: "distinct (map fst ins)" and nin: "map_of ins name = None"
    by (auto simp: map_of_eq_None_iff)
  from Cons.prems have sl: "last_with_padding \<longrightarrow> (\<forall>e \<in> set ins. Slice (snd e) 0 1 \<noteq> None)"
    by simp
  from Cons.prems e have st: "last_with_padding \<longrightarrow> Slice t 0 1 \<noteq> None" by simp
  have step: "merge_task_inputs last_with_padding padding_size (e # ins) m
      = merge_task_inputs last_with_padding padding_size ins ?m1"
    using e st by (auto simp: Let_def split: option.splits)
  from Cons.IH [OF d sl, of ?m1] obtain m' where
    m': "merge_task_inputs last_with_padding padding_size ins ?m1 = Some m'" and
    lk: "\<And>n. fmlookup m' n =
         (case map_of ins n of
            None \<Rightarrow> fmlookup ?m1 n
          | Some t \<Rightarrow>
              Some ((case fmlookup ?m1 n of None \<Rightarrow> [] | Some v \<Rightarrow> v) @ t #
                    (if last_with_padding then replicate padding_size (the (Slice t 0 1))
                     else [])))"
    by blast
  have "fmlookup m' n =
         (case map_of (e # ins) n of
            None \<Rightarrow> fmlookup m n
          | Some t \<Rightarrow>
              Some ((case fmlookup m n of None \<Rightarrow> [] | Some v \<Rightarrow> v) @ t #
                    (if last_with_padding then replicate padding_size (the (Slice t 0 1))
                     else [])))" for n
  proof (cases "n = name")
    case True
    with lk [of n] nin e show ?thesis by simp
  next
    case False
    with lk [of n] e show ?thesis by (simp split: option.splits)
  qed
  with step m' show ?case by simp
qed


lemma map_of_conforming:
  "fset_of_list (map fst ins) = I \<Longrightarrow> (map_of ins n = None) = (n |\<notin>| I)"
  by (auto simp: map_of_eq_None_iff fset_of_list.rep_eq)

lemma populate_tensors_to_merge_lookup:
  assumes "\<forall>task \<in> set rest.
        distinct (map fst (inputs task)) \<and> fset_of_list (map fst (inputs task)) = I"
    and "i + length rest = num_tasks"
    and "padding_size > 0 \<longrightarrow> rest \<noteq> [] \<longrightarrow>
           (\<forall>e \<in> set (inputs (last rest)). Slice (snd e) 0 1 \<noteq> None)"
  shows "\<exists>m'. populate_tensors_to_merge padding_size num_tasks i rest m = Some m' \<and>
     (\<forall>n. fmlookup m' n =
        (if n |\<in>| I \<and> rest \<noteq> [] then
           Some ((case fmlookup m n of None \<Rightarrow> [] | Some v \<Rightarrow> v) @
                 map (\<lambda>task. the (map_of (inputs task) n)) rest @
                 (if padding_size > 0 then
                    replicate (nat padding_size)
                      (the (Slice (the (map_of (inputs (last rest)) n)) 0 1))
                  else []))
         else fmlookup m n))"
  using assms
proof (induction rest arbitrary: i m)
  case Nil
  then show ?case by simp
next
  case (Cons task rest)
  let ?lp = "int i = int num_tasks - 1 \<and> padding_size > 0"
  from Cons.prems(1) have d: "distinct (map fst (inputs task))"
    and names: "fset_of_list (map fst (inputs task)) = I" by auto
  from Cons.prems(2) have lp_iff: "?lp \<longleftrightarrow> rest = [] \<and> padding_size > 0" by auto
  have sl: "?lp \<longrightarrow> (\<forall>e \<in> set (inputs task). Slice (snd e) 0 1 \<noteq> None)"
    using Cons.prems(3) lp_iff by auto
  from merge_task_inputs_lookup [OF d sl, of "nat padding_size" m] obtain m1 where
    m1: "merge_task_inputs ?lp (nat padding_size) (inputs task) m = Some m1" and
    lk1: "\<And>n. fmlookup m1 n =
         (case map_of (inputs task) n of
            None \<Rightarrow> fmlookup m n
          | Some t \<Rightarrow>
              Some ((case fmlookup m n of None \<Rightarrow> [] | Some v \<Rightarrow> v) @ t #
                    (if ?lp then replicate (nat padding_size) (the (Slice t 0 1)) else [])))"
    by blast
  show ?case
  proof (cases "rest = []")
    case True
    have "fmlookup m1 n =
        (if n |\<in>| I \<and> task # rest \<noteq> [] then
           Some ((case fmlookup m n of None \<Rightarrow> [] | Some v \<Rightarrow> v) @
                 map (\<lambda>task. the (map_of (inputs task) n)) (task # rest) @
                 (if padding_size > 0 then
                    replicate (nat padding_size)
                      (the (Slice (the (map_of (inputs (last (task # rest))) n)) 0 1))
                  else []))
         else fmlookup m n)" for n
      using lk1 [of n] map_of_conforming [OF names, of n] True lp_iff
      by (cases "map_of (inputs task) n") auto
    with m1 True show ?thesis by simp
  next
    case False
    from Cons.prems(1) have wf': "\<forall>task \<in> set rest.
        distinct (map fst (inputs task)) \<and> fset_of_list (map fst (inputs task)) = I" by simp
    from Cons.prems(2) have idx': "Suc i + length rest = num_tasks" by simp
    from Cons.prems(3) False have sl': "padding_size > 0 \<longrightarrow> rest \<noteq> [] \<longrightarrow>
           (\<forall>e \<in> set (inputs (last rest)). Slice (snd e) 0 1 \<noteq> None)" by simp
    from Cons.IH [OF wf' idx' sl', of m1] obtain m' where
      m': "populate_tensors_to_merge padding_size num_tasks (Suc i) rest m1 = Some m'" and
      lk: "\<And>n. fmlookup m' n =
        (if n |\<in>| I \<and> rest \<noteq> [] then
           Some ((case fmlookup m1 n of None \<Rightarrow> [] | Some v \<Rightarrow> v) @
                 map (\<lambda>task. the (map_of (inputs task) n)) rest @
                 (if padding_size > 0 then
                    replicate (nat padding_size)
                      (the (Slice (the (map_of (inputs (last rest)) n)) 0 1))
                  else []))
         else fmlookup m1 n)"
      by blast
    have "fmlookup m' n =
        (if n |\<in>| I \<and> task # rest \<noteq> [] then
           Some ((case fmlookup m n of None \<Rightarrow> [] | Some v \<Rightarrow> v) @
                 map (\<lambda>task. the (map_of (inputs task) n)) (task # rest) @
                 (if padding_size > 0 then
                    replicate (nat padding_size)
                      (the (Slice (the (map_of (inputs (last (task # rest))) n)) 0 1))
                  else []))
         else fmlookup m n)" for n
      using lk [of n] lk1 [of n] map_of_conforming [OF names, of n] False lp_iff
      by (cases "map_of (inputs task) n") auto
    with m1 m' show ?thesis by simp
  qed
qed

lemma concat_signature_inputs_OK:
  "(\<forall>n \<in> set names. \<exists>tensors. fmlookup m n = Some tensors \<and> Concat tensors = Some (f n)) \<Longrightarrow>
   concat_signature_inputs names m merged_inputs
     = Some (OK, merged_inputs @ map (\<lambda>n. (n, f n)) names)"
  by (induction names arbitrary: merged_inputs) auto


lemma concat_replicate_single: "concat (replicate k [r]) = replicate k r"
  by (induction k) auto

lemma length_concat_column:
  "(\<forall>task \<in> set batch. length (g task) = zeroth_dim_size task) \<Longrightarrow>
   length (concat (map g batch)) = Batch_size batch"
  by (induction batch) (auto simp: Batch_size_def)

lemma padding_a_empty: "padding_size_of options_4 [task_a, task_empty] = 2"
  by (simp add: padding_size_of_def options_4_def Batch_size_def task_a_def task_empty_def
      RoundToLowestAllowedBatchSize_def)

lemma round_ab:
  "RoundToLowestAllowedBatchSize options_4 (int (Batch_size [task_a, task_b])) = 4"
  by (simp add: options_4_def Batch_size_def task_a_def task_b_def
      RoundToLowestAllowedBatchSize_def)

lemma sorted_xw: "sorted_list_of_fset {|''x'', ''w''|} = [''w'', ''x'']"
  by (simp add: sorted_list_of_fset.rep_eq)

text \<open>
  What the merger does with a batch that keeps the task invariants. Take a non-empty
  batch in which every task carries every input name of the signature exactly once and
  nothing else, every input tensor has rank at least one and the axis-0 size recorded as
  the task's \<^verbatim>\<open>zeroth_dim_size\<close>, and, when padding is needed, the last task has at
  least one row. Then \<^verbatim>\<open>MergeInputTensors\<close> succeeds and appends one merged tensor
  per input name of the signature, in the signature's order. Each merged tensor has the
  rounded batch size as its axis-0 size; its first \<^verbatim>\<open>batch.size()\<close> rows are the
  tasks' rows for that name in task order, and the rows after them are copies of the
  single row of \<^verbatim>\<open>Slice(0, 1)\<close> of the last task's tensor of that name.
\<close>

lemma MergeInputTensors_conforming_batch:
  assumes ne: "batch \<noteq> []"
    and wf: "\<forall>task \<in> set batch.
        distinct (map fst (inputs task)) \<and>
        fset_of_list (map fst (inputs task)) = input_tensors signature \<and>
        (\<forall>e \<in> set (inputs task). \<exists>rows. snd e = Rows rows \<and> length rows = zeroth_dim_size task)"
    and lastrow: "padding_size_of options batch > 0 \<longrightarrow> zeroth_dim_size (last batch) > 0"
  shows "\<exists>merged.
      MergeInputTensors options signature batch merged_inputs = Some (OK, merged_inputs @ merged) \<and>
      map fst merged = sorted_list_of_fset (input_tensors signature) \<and>
      (\<forall>e \<in> set merged. \<exists>rows.
          snd e = Rows rows \<and>
          int (length rows) = RoundToLowestAllowedBatchSize options (int (Batch_size batch)) \<and>
          take (Batch_size batch) rows
            = concat (map (\<lambda>task. tensor_rows (the (map_of (inputs task) (fst e)))) batch) \<and>
          (padding_size_of options batch > 0 \<longrightarrow>
             (\<exists>row. Slice (the (map_of (inputs (last batch)) (fst e))) 0 1 = Some (Rows [row]) \<and>
                drop (Batch_size batch) rows
                  = replicate (nat (padding_size_of options batch)) row)))"
proof -
  let ?I = "input_tensors signature"
  let ?P = "padding_size_of options batch"
  let ?L = "sorted_list_of_fset ?I"
  let ?col = "\<lambda>n. map (\<lambda>task. the (map_of (inputs task) n)) batch"
  let ?pads = "\<lambda>n. if ?P > 0 then
                    replicate (nat ?P) (the (Slice (the (map_of (inputs (last batch)) n)) 0 1))
                  else []"
  have P0: "0 \<le> ?P" by (rule padding_size_of_nonneg)
  \<comment> \<open>every input of every task is a tensor of rank at least one with the task's size\<close>
  have entry: "\<exists>rows. the (map_of (inputs task) n) = Rows rows \<and> length rows = zeroth_dim_size task"
    if "task \<in> set batch" "n |\<in>| ?I" for task n
  proof -
    from wf that(1) have c: "fset_of_list (map fst (inputs task)) = ?I" by simp
    from map_of_conforming [OF c, of n] that(2) obtain t where t: "map_of (inputs task) n = Some t"
      by auto
    then have "(n, t) \<in> set (inputs task)" by (rule map_of_SomeD)
    with wf that(1) obtain rows where "t = Rows rows" "length rows = zeroth_dim_size task"
      by fastforce
    with t show ?thesis by simp
  qed
  from ne have lastin: "last batch \<in> set batch" by simp
  have slice_last: "\<exists>row. Slice (the (map_of (inputs (last batch)) n)) 0 1 = Some (Rows [row])"
    if "?P > 0" "n |\<in>| ?I" for n
  proof -
    from entry [OF lastin that(2)] obtain rows where
      r: "the (map_of (inputs (last batch)) n) = Rows rows" "length rows = zeroth_dim_size (last batch)"
      by blast
    with lastrow that(1) obtain row rows' where "rows = row # rows'" by (cases rows) auto
    with r show ?thesis by simp
  qed
  have sl: "?P > 0 \<longrightarrow> batch \<noteq> [] \<longrightarrow> (\<forall>e \<in> set (inputs (last batch)). Slice (snd e) 0 1 \<noteq> None)"
  proof (intro impI ballI)
    fix e assume p: "?P > 0" and e: "e \<in> set (inputs (last batch))"
    with wf lastin obtain rows where "snd e = Rows rows" "length rows = zeroth_dim_size (last batch)"
      by blast
    with lastrow p show "Slice (snd e) 0 1 \<noteq> None" by simp
  qed
  have wf1: "\<forall>task \<in> set batch.
        distinct (map fst (inputs task)) \<and> fset_of_list (map fst (inputs task)) = ?I"
    using wf by simp
  from populate_tensors_to_merge_lookup [OF wf1 _ sl, of 0 "length batch" fmempty]
  obtain m where
    m: "populate_tensors_to_merge ?P (length batch) 0 batch fmempty = Some m" and
    lk: "\<And>n. fmlookup m n = (if n |\<in>| ?I then Some (?col n @ ?pads n) else None)"
    using ne by auto
  have dom: "fmdom m = ?I"
    by (rule fset_eqI) (simp add: fmlookup_dom_iff lk)
  let ?f = "\<lambda>n. Rows (concat (map tensor_rows (?col n @ ?pads n)))"
  have cc: "\<forall>n \<in> set ?L. \<exists>tensors. fmlookup m n = Some tensors \<and> Concat tensors = Some (?f n)"
  proof
    fix n assume "n \<in> set ?L"
    then have n: "n |\<in>| ?I" by simp
    have rows_col: "\<forall>t \<in> set (?col n). \<exists>rows. t = Rows rows"
      using entry [OF _ n] by auto
    have rows_pads: "\<forall>t \<in> set (?pads n). \<exists>rows. t = Rows rows"
      using slice_last [OF _ n] by auto
    from ne have "?col n @ ?pads n \<noteq> []" by simp
    moreover from rows_col rows_pads have "\<forall>t \<in> set (?col n @ ?pads n). \<exists>rows. t = Rows rows"
      by auto
    ultimately have "Concat (?col n @ ?pads n) = Some (?f n)"
      by (rule Concat_Rows)
    with lk [of n] n show "\<exists>tensors. fmlookup m n = Some tensors \<and> Concat tensors = Some (?f n)"
      by simp
  qed
  let ?merged = "map (\<lambda>n. (n, ?f n)) ?L"
  have run: "MergeInputTensors options signature batch merged_inputs
      = Some (OK, merged_inputs @ ?merged)"
    using ne m dom concat_signature_inputs_OK [OF cc, of merged_inputs]
    by (simp add: MergeInputTensors_def)
  have names: "map fst ?merged = ?L"
    by (simp add: comp_def)
  have each: "\<exists>rows.
          snd e = Rows rows \<and>
          int (length rows) = RoundToLowestAllowedBatchSize options (int (Batch_size batch)) \<and>
          take (Batch_size batch) rows
            = concat (map (\<lambda>task. tensor_rows (the (map_of (inputs task) (fst e)))) batch) \<and>
          (?P > 0 \<longrightarrow>
             (\<exists>row. Slice (the (map_of (inputs (last batch)) (fst e))) 0 1 = Some (Rows [row]) \<and>
                drop (Batch_size batch) rows = replicate (nat ?P) row))"
    if "e \<in> set ?merged" for e
  proof -
    from that obtain n where n: "n |\<in>| ?I" and e: "e = (n, ?f n)" by auto
    let ?body = "concat (map (\<lambda>task. tensor_rows (the (map_of (inputs task) n))) batch)"
    let ?tail = "concat (map tensor_rows (?pads n))"
    have lb: "length ?body = Batch_size batch"
    proof (rule length_concat_column, rule ballI)
      fix task assume "task \<in> set batch"
      from entry [OF this n]
      show "length (tensor_rows (the (map_of (inputs task) n))) = zeroth_dim_size task"
        by auto
    qed
    have f: "?f n = Rows (?body @ ?tail)"
      by (simp add: comp_def)
    have tail: "?tail = (if ?P > 0 then
        replicate (nat ?P) (hd (tensor_rows (the (Slice (the (map_of (inputs (last batch)) n)) 0 1))))
        else [])"
    proof (cases "?P > 0")
      case True
      from slice_last [OF True n] obtain row where
        "Slice (the (map_of (inputs (last batch)) n)) 0 1 = Some (Rows [row])" by blast
      with True show ?thesis by (simp add: concat_replicate_single)
    next
      case False
      then show ?thesis by simp
    qed
    have lt: "length ?tail = nat ?P" using tail by simp
    have len: "int (length (?body @ ?tail))
        = RoundToLowestAllowedBatchSize options (int (Batch_size batch))"
      using lb lt P0 by (simp add: padding_size_of_def)
    have pad: "?P > 0 \<longrightarrow>
        (\<exists>row. Slice (the (map_of (inputs (last batch)) n)) 0 1 = Some (Rows [row]) \<and>
           drop (Batch_size batch) (?body @ ?tail) = replicate (nat ?P) row)"
    proof
      assume p: "?P > 0"
      from slice_last [OF p n] obtain row where
        r: "Slice (the (map_of (inputs (last batch)) n)) 0 1 = Some (Rows [row])" by blast
      with tail p have "?tail = replicate (nat ?P) row" by simp
      with lb r show "\<exists>row. Slice (the (map_of (inputs (last batch)) n)) 0 1 = Some (Rows [row]) \<and>
           drop (Batch_size batch) (?body @ ?tail) = replicate (nat ?P) row"
        by simp
    qed
    from lb have tk: "take (Batch_size batch) (?body @ ?tail) = ?body" by simp
    show ?thesis
      unfolding e fst_conv snd_conv f
      using len tk pad by blast
  qed
  from run names each show ?thesis by blast
qed

lemma run_schedules_task_empty:
  "Run double_engine schedulers_x_y [(''x'', Rows [])] [''y''] [] [] 0 = (Waiting task_empty, 0)"
  by (simp add: Run_def sig_x_y_hit ComputeInputSize_def task_empty_def)

lemma merge_a_empty: "MergeInputTensors options_4 sig_x_y [task_a, task_empty] [] = None"
  by (simp add: MergeInputTensors_def padding_a_empty)
     (simp add: task_a_def task_empty_def)

text \<open>
  Claim C3. The claim does not hold of the code when padding is needed and the last
  task's tensor has no rows. \<^verbatim>\<open>Run\<close> admits a call whose input has zero rows and
  schedules the task \<open>task_empty\<close> for it. With allowed batch sizes \<open>[4]\<close> and the batch
  of a two-row task followed by that task, the rounded size is 4 and the padding is 2,
  and the merger asks the last task's tensor for \<^verbatim>\<open>Slice(0, 1)\<close>, a row it does not
  have: the call is outside the contract of \<^verbatim>\<open>Slice\<close>, no merged tensor is produced
  and \<^verbatim>\<open>ProcessBatch\<close> does not return. The comment at that line takes the row to
  exist.
\<close>

theorem MergeInputTensors_zero_row_padding:
  "Run double_engine schedulers_x_y [(''x'', Rows [])] [''y''] [] [] 0 = (Waiting task_empty, 0) \<and>
   RoundToLowestAllowedBatchSize options_4 (int (Batch_size [task_a, task_empty])) = 4 \<and>
   padding_size_of options_4 [task_a, task_empty] = 2 \<and>
   inputs (last [task_a, task_empty]) = [(''x'', Rows [])] \<and>
   Slice (Rows ([] :: int list)) 0 1 = None \<and>
   MergeInputTensors options_4 sig_x_y [task_a, task_empty] [] = None \<and>
   ProcessBatch options_4 double_engine sig_x_y [task_a, task_empty] 0 = None"
proof (intro conjI)
  show "Run double_engine schedulers_x_y [(''x'', Rows [])] [''y''] [] [] 0
      = (Waiting task_empty, 0)"
    by (rule run_schedules_task_empty)
  show "MergeInputTensors options_4 sig_x_y [task_a, task_empty] [] = None"
    by (rule merge_a_empty)
  show "ProcessBatch options_4 double_engine sig_x_y [task_a, task_empty] 0 = None"
    by (simp add: ProcessBatch_def merge_a_empty)
  show "padding_size_of options_4 [task_a, task_empty] = 2"
    by (rule padding_a_empty)
  show "inputs (last [task_a, task_empty]) = [(''x'', Rows [])]"
    by (simp add: task_empty_def)
qed (simp_all add: options_4_def Batch_size_def task_a_def task_empty_def
        RoundToLowestAllowedBatchSize_def)

text \<open>
  What the merger's status depends on: when it returns for a non-empty batch, the status
  is \<open>OK\<close> exactly when the names collected from all the tasks together are the
  signature's input names, and every error is the internal error below.
\<close>

lemma merge_task_inputs_dom:
  "merge_task_inputs last_with_padding padding_size ins m = Some m' \<Longrightarrow>
   fmdom m' = fmdom m |\<union>| fset_of_list (map fst ins)"
proof (induction ins arbitrary: m)
  case Nil
  then show ?case by simp
next
  case (Cons e ins)
  obtain name t where e: "e = (name, t)" by (cases e)
  from Cons.prems e obtain v where
    "merge_task_inputs last_with_padding padding_size ins (fmupd name v m) = Some m'"
    by (auto simp: Let_def split: if_splits option.splits)
  from Cons.IH [OF this] e show ?case by auto
qed

lemma populate_tensors_to_merge_dom:
  "populate_tensors_to_merge padding_size num_tasks i rest m = Some m' \<Longrightarrow>
   fmdom m' = fmdom m |\<union>| fset_of_list (concat (map (\<lambda>task. map fst (inputs task)) rest))"
proof (induction rest arbitrary: i m)
  case Nil
  then show ?case by simp
next
  case (Cons task rest)
  from Cons.prems obtain m1 where
    m1: "merge_task_inputs (int i = int num_tasks - 1 \<and> padding_size > 0) (nat padding_size)
           (inputs task) m = Some m1" and
    r: "populate_tensors_to_merge padding_size num_tasks (Suc i) rest m1 = Some m'"
    by (auto split: option.splits)
  from Cons.IH [OF r] merge_task_inputs_dom [OF m1] show ?case
    by (simp add: funion_assoc del: fset_of_list_map)
qed

lemma concat_signature_inputs_status:
  "concat_signature_inputs names m merged_inputs = Some (st, merged) \<Longrightarrow>
   (ok st \<longleftrightarrow> set names \<subseteq> fset (fmdom m)) \<and>
   (\<not> ok st \<longrightarrow> st = Error INTERNAL ''One or more tasks does not conform to batch signature'')"
proof (induction names arbitrary: merged_inputs)
  case Nil
  then show ?case by simp
next
  case (Cons n names)
  show ?case
  proof (cases "fmlookup m n")
    case None
    with Cons.prems show ?thesis by (auto simp: fmdom_notI)
  next
    case (Some tensors)
    with Cons.prems obtain t where
      "concat_signature_inputs names m (merged_inputs @ [(n, t)]) = Some (st, merged)"
      by (auto split: option.splits)
    from Cons.IH [OF this] Some show ?thesis by (auto simp: fmdomI)
  qed
qed

lemma MergeInputTensors_status:
  assumes "batch \<noteq> []"
    and "MergeInputTensors options signature batch merged_inputs = Some (st, merged)"
  shows "(ok st \<longleftrightarrow>
           fset_of_list (concat (map (\<lambda>task. map fst (inputs task)) batch))
             = input_tensors signature) \<and>
         (\<not> ok st \<longrightarrow>
           st = Error INTERNAL ''One or more tasks does not conform to batch signature'')"
proof -
  let ?U = "fset_of_list (concat (map (\<lambda>task. map fst (inputs task)) batch))"
  let ?I = "input_tensors signature"
  from assms obtain m where
    m: "populate_tensors_to_merge (padding_size_of options batch) (length batch) 0 batch fmempty
          = Some m"
    by (auto simp: MergeInputTensors_def split: if_splits option.splits)
  from populate_tensors_to_merge_dom [OF m] have dom: "fmdom m = ?U" by simp
  show ?thesis
  proof (cases "fcard ?U = fcard ?I")
    case False
    with assms m dom have "st = Error INTERNAL ''One or more tasks does not conform to batch signature''"
      by (auto simp: MergeInputTensors_def)
    moreover from False have "?U \<noteq> ?I" by auto
    ultimately show ?thesis by simp
  next
    case True
    with assms m dom have
      c: "concat_signature_inputs (sorted_list_of_fset ?I) m merged_inputs = Some (st, merged)"
      by (auto simp: MergeInputTensors_def)
    from concat_signature_inputs_status [OF c] dom
    have s: "ok st \<longleftrightarrow> ?I |\<subseteq>| ?U"
      and e: "\<not> ok st \<longrightarrow> st = Error INTERNAL ''One or more tasks does not conform to batch signature''"
      by (auto simp: less_eq_fset.rep_eq)
    have "?I |\<subseteq>| ?U \<longleftrightarrow> ?U = ?I"
    proof
      assume "?I |\<subseteq>| ?U"
      then show "?U = ?I" using True by (metis fcard_seteq order_refl)
    qed simp
    with s e show ?thesis by simp
  qed
qed

text \<open>
  Claim C8. The claim does not hold of the code: the merger compares the number of
  names collected from the whole batch with the number of names in the signature and
  then looks every signature name up in the collection. With the signature
  \<open>({w, x}, {y})\<close> and two tasks of which the first carries only \<open>x\<close> and the second
  only \<open>w\<close>, no task has the signature's input names, yet the merger returns \<open>OK\<close>.
\<close>

theorem MergeInputTensors_union_check:
  "fset_of_list (map fst (inputs task_x_only)) \<noteq> input_tensors sig_xw_y \<and>
   MergeInputTensors options_none sig_xw_y [task_x_only, task_w_only] []
     = Some (OK, [(''w'', Rows [5]), (''x'', Rows [1])])"
proof
  have "''w'' |\<in>| input_tensors sig_xw_y" by (simp add: sig_xw_y_def)
  moreover have "''w'' |\<notin>| fset_of_list (map fst (inputs task_x_only))"
    by (simp add: task_x_only_def)
  ultimately show "fset_of_list (map fst (inputs task_x_only)) \<noteq> input_tensors sig_xw_y"
    by metis
  have p: "padding_size_of options_none [task_x_only, task_w_only] = 0"
    by (simp add: padding_size_of_def options_none_def RoundToLowestAllowedBatchSize_def)
  show "MergeInputTensors options_none sig_xw_y [task_x_only, task_w_only] []
     = Some (OK, [(''w'', Rows [5]), (''x'', Rows [1])])"
    by (simp add: MergeInputTensors_def p sig_xw_y_def sorted_xw)
       (simp add: task_x_only_def task_w_only_def fcard_finsert_if Concat_def sorted_xw)
qed

section \<open>Results about signature hashing\<close>







lemma HashTensorSignature_fold:
  "HashTensorSignature HashCombine hash_string signature =
     fold (\<lambda>name hash. HashCombine hash (hash_string name))
       (sorted_list_of_fset (input_tensors signature) @
        sorted_list_of_fset (output_tensors signature)) 0xDECAFCAFFE"
  by (simp add: HashTensorSignature_def)

lemma HashTensorSignature_any_order:
  assumes comm: "\<And>a b. HashCombine a b = HashCombine b a"
    and assoc: "\<And>a b c. HashCombine (HashCombine a b) c = HashCombine a (HashCombine b c)"
    and names: "mset names = mset (sorted_list_of_fset (input_tensors signature) @
                  sorted_list_of_fset (output_tensors signature))"
  shows "HashTensorSignature HashCombine hash_string signature =
     fold (\<lambda>name hash. HashCombine hash (hash_string name)) names 0xDECAFCAFFE"
proof -
  let ?step = "\<lambda>name hash. HashCombine hash (hash_string name)"
  have "?step x \<circ> ?step y = ?step y \<circ> ?step x" for x y
  proof
    fix a
    have "HashCombine (HashCombine a (hash_string y)) (hash_string x)
        = HashCombine a (HashCombine (hash_string y) (hash_string x))" by (rule assoc)
    also have "\<dots> = HashCombine a (HashCombine (hash_string x) (hash_string y))"
      by (simp add: comm [of "hash_string y"])
    also have "\<dots> = HashCombine (HashCombine a (hash_string x)) (hash_string y)"
      by (rule assoc [symmetric])
    finally show "(?step x \<circ> ?step y) a = (?step y \<circ> ?step x) a" by simp
  qed
  then have "fold ?step names = fold ?step (sorted_list_of_fset (input_tensors signature) @
                  sorted_list_of_fset (output_tensors signature))"
    by (intro fold_multiset_equiv names) 
  then show ?thesis by (simp only: HashTensorSignature_fold)
qed



lemma sort_wxw: "sort (remdups [''w'', ''x'', ''w'']) = [''w'', ''x'']"
  by simp



end
